theory Spec2Isabelle
  imports
    Complex_Main
    "HOL-Library.AList"
    "HOL-Library.Multiset"
    "HOL-Library.Extended_Nat"
    "HOL-Library.Product_Lexorder"
    "HOL-Library.Char_ord"
    "HOL-Library.List_Lexorder"
begin

section \<open>Python values and dictionaries\<close>

text \<open>
  The coordinator and the worker exchange JSON documents. A decoded JSON value is one of
  Python's \<^verbatim>\<open>None\<close>, \<^verbatim>\<open>bool\<close>, \<^verbatim>\<open>int\<close>, \<^verbatim>\<open>float\<close>, \<^verbatim>\<open>str\<close>, \<^verbatim>\<open>list\<close> or \<^verbatim>\<open>dict\<close> (with
  string keys). A Python \<^verbatim>\<open>dict\<close> is modelled as an association list in insertion order;
  a dictionary never holds a key twice, which is the predicate \<open>distinct (map fst d)\<close>.
  Reading \<^verbatim>\<open>d[k]\<close> is \<open>map_of d k\<close>; the assignment \<^verbatim>\<open>d[k] = v\<close> is \<open>AList.update k v d\<close>, which
  replaces the value in place when the key is present and appends the pair otherwise, as
  Python does.
\<close>

text \<open>
  A Python \<^verbatim>\<open>float\<close> is an IEEE double: a finite value, an infinity or NaN. The finite
  values are kept as the reals they denote. Comparisons are Python's: every comparison
  with NaN is false, also \<^verbatim>\<open>nan == nan\<close>. Addition rounds, and is a function of the runtime
  (see \<open>py_runtime\<close> below), not the addition of the reals.
\<close>

datatype pyfloat = Finite real | PosInf | NegInf | NaN

definition float_lt :: "pyfloat \<Rightarrow> pyfloat \<Rightarrow> bool" where
  "float_lt a b =
     (case a of
        NaN \<Rightarrow> False
      | PosInf \<Rightarrow> False
      | NegInf \<Rightarrow> (case b of NaN \<Rightarrow> False | NegInf \<Rightarrow> False | _ \<Rightarrow> True)
      | Finite x \<Rightarrow>
          (case b of NaN \<Rightarrow> False | NegInf \<Rightarrow> False | PosInf \<Rightarrow> True | Finite y \<Rightarrow> x < y))"

definition float_eq :: "pyfloat \<Rightarrow> pyfloat \<Rightarrow> bool" where
  "float_eq a b = (a \<noteq> NaN \<and> b \<noteq> NaN \<and> a = b)"

datatype pyval =
    PyNone
  | PyBool bool
  | PyInt int
  | PyFloat pyfloat
  | PyStr string
  | PyList "pyval list"
  | PyDict "(string \<times> pyval) list"

text \<open>
  \<^verbatim>\<open>isinstance(v, int)\<close>: in Python \<^verbatim>\<open>bool\<close> is a subclass of \<^verbatim>\<open>int\<close>, so both pass; the
  integer a \<^verbatim>\<open>bool\<close> stands for is 0 or 1 (\<^verbatim>\<open>True == 1\<close>).
\<close>

fun isinstance_int :: "pyval \<Rightarrow> bool" where
  "isinstance_int (PyInt i) = True"
| "isinstance_int (PyBool b) = True"
| "isinstance_int v = False"

fun int_value :: "pyval \<Rightarrow> int" where
  "int_value (PyInt i) = i"
| "int_value (PyBool b) = (if b then 1 else 0)"
| "int_value v = 0"

section \<open>The Fuser: \<^verbatim>\<open>fuse.merge_partial_index\<close>\<close>

text \<open>
  The global index is \<^verbatim>\<open>Dict[str, Dict[str, int]]\<close>. The partial index of a worker is typed
  the same way, but \<^verbatim>\<open>merge_partial_index\<close> checks the inner values at run time, so the
  partial index is a dictionary from terms to arbitrary values.
\<close>

type_synonym doc_freq_map = "(string \<times> int) list"
type_synonym index = "(string \<times> doc_freq_map) list"
type_synonym partial_index = "(string \<times> pyval) list"

text \<open>
  One iteration of the \<^verbatim>\<open>for term, doc_freq_map in partial_index_from_worker.items()\<close> loop.
  Each \<^verbatim>\<open>continue\<close> leaves the global index as it is.
\<close>

definition merge_term :: "string \<Rightarrow> index \<Rightarrow> string \<times> pyval \<Rightarrow> index" where
  "merge_term doc_id_processed global_index item =
     (case item of (tm, doc_freq_map) \<Rightarrow>
        (case doc_freq_map of
           PyDict m \<Rightarrow>
             (case map_of m doc_id_processed of
                None \<Rightarrow> global_index
              | Some frequency \<Rightarrow>
                  if \<not> isinstance_int frequency \<or> int_value frequency < 0 then global_index
                  else
                    let g1 = (if map_of global_index tm = None
                              then AList.update tm [] global_index else global_index)
                    in (case map_of g1 tm of
                          None \<Rightarrow> g1
                        | Some inner \<Rightarrow>
                            AList.update tm
                              (AList.update doc_id_processed (int_value frequency) inner) g1))
         | _ \<Rightarrow> global_index))"

text \<open>
  The whole call. The lock is acquired before the loop and released in the \<^verbatim>\<open>finally\<close>
  block; the loop raises nothing, so in a sequential run the call is the loop.
\<close>

definition merge_partial_index :: "index \<Rightarrow> partial_index \<Rightarrow> string \<Rightarrow> index" where
  "merge_partial_index global_index partial_index_from_worker doc_id_processed =
     foldl (merge_term doc_id_processed) global_index partial_index_from_worker"

text \<open>\<^verbatim>\<open>global_index[term][doc_id]\<close>, when both keys are present.\<close>

definition lookup_freq :: "index \<Rightarrow> string \<Rightarrow> string \<Rightarrow> int option" where
  "lookup_freq global_index tm doc_id =
     (case map_of global_index tm of None \<Rightarrow> None | Some inner \<Rightarrow> map_of inner doc_id)"

text \<open>
  Python compares dictionaries by content, not by insertion order: two indexes are equal
  (\<^verbatim>\<open>==\<close>) when they have the same terms and, at each term, the same documents with the
  same frequencies. \<open>index_map\<close> is that content.
\<close>

definition index_map :: "index \<Rightarrow> string \<Rightarrow> (string \<Rightarrow> int option) option" where
  "index_map global_index = (\<lambda>tm. map_option map_of (map_of global_index tm))"

text \<open>
  The frequency a partial-index entry carries for the document, when the entry passes the
  three checks of the loop.
\<close>

definition valid_freq :: "string \<Rightarrow> pyval \<Rightarrow> int option" where
  "valid_freq doc_id_processed doc_freq_map =
     (case doc_freq_map of
        PyDict m \<Rightarrow>
          (case map_of m doc_id_processed of
             None \<Rightarrow> None
           | Some frequency \<Rightarrow>
               if isinstance_int frequency \<and> 0 \<le> int_value frequency
               then Some (int_value frequency) else None)
      | _ \<Rightarrow> None)"

text \<open>The effect of one write \<^verbatim>\<open>global_index[term][doc_id] = f\<close> on the content of the index.\<close>

definition write_freq ::
  "string \<Rightarrow> string \<Rightarrow> int \<Rightarrow> (string \<Rightarrow> (string \<Rightarrow> int option) option)
     \<Rightarrow> (string \<Rightarrow> (string \<Rightarrow> int option) option)" where
  "write_freq tm doc_id f M =
     M(tm \<mapsto> (case M tm of None \<Rightarrow> Map.empty | Some inner \<Rightarrow> inner)(doc_id \<mapsto> f))"

definition merge_term_map ::
  "string \<Rightarrow> (string \<Rightarrow> (string \<Rightarrow> int option) option) \<Rightarrow> string \<times> pyval
     \<Rightarrow> (string \<Rightarrow> (string \<Rightarrow> int option) option)" where
  "merge_term_map doc_id M item =
     (case valid_freq doc_id (snd item) of
        None \<Rightarrow> M
      | Some f \<Rightarrow> write_freq (fst item) doc_id f M)"

text \<open>The content of the index at one (term, document) pair.\<close>

definition content_freq ::
  "(string \<Rightarrow> (string \<Rightarrow> int option) option) \<Rightarrow> string \<Rightarrow> string \<Rightarrow> int option" where
  "content_freq M tm d = (case M tm of None \<Rightarrow> None | Some inner \<Rightarrow> inner d)"


section \<open>The coordinator's state and its results handler\<close>

text \<open>
  \<^verbatim>\<open>models.PartialIndexData\<close>, the record a worker publishes, and the module-level state of
  \<^verbatim>\<open>main.py\<close>: the global inverted index and the set of documents dispatched whose results
  are pending.
\<close>

record partial_index_data =
  worker_id :: string
  doc_id :: string
  partial_index :: partial_index

record coordinator =
  global_inverted_index :: index
  dispatched_docs_pending_results :: "string set"

text \<open>\<^verbatim>\<open>main.handle_partial_index_message\<close>: fuse, then take the document out of the pending set.\<close>

definition handle_partial_index_message :: "coordinator \<Rightarrow> partial_index_data \<Rightarrow> coordinator" where
  "handle_partial_index_message st data =
     (let st1 = st\<lparr>global_inverted_index :=
                  merge_partial_index (global_inverted_index st) (partial_index data) (doc_id data)\<rparr>
      in if doc_id data \<in> dispatched_docs_pending_results st1
         then st1\<lparr>dispatched_docs_pending_results :=
                   dispatched_docs_pending_results st1 - {doc_id data}\<rparr>
         else st1)"

section \<open>Exceptions\<close>

text \<open>
  The exceptions the code raises or catches. \<^verbatim>\<open>redis.exceptions.ConnectionError\<close> is a
  subclass of \<^verbatim>\<open>redis.exceptions.RedisError\<close>; \<open>OtherRedisError\<close> stands for the other
  subclasses. \<^verbatim>\<open>fastapi.HTTPException\<close> carries the status code. Every one of them is an
  \<^verbatim>\<open>Exception\<close>.
\<close>

datatype exn =
    KeyError
  | IndexError
  | TypeError
  | ValueError
  | JSONDecodeError
  | OSError
  | ConnectionError
  | OtherRedisError
  | HTTPException nat

fun is_RedisError :: "exn \<Rightarrow> bool" where
  "is_RedisError ConnectionError = True"
| "is_RedisError OtherRedisError = True"
| "is_RedisError e = False"

section \<open>The Normalizer: \<^verbatim>\<open>shared/text_utils.normalize_text\<close>\<close>

text \<open>
  \<^verbatim>\<open>normalize_text\<close> is built from library functions that are not part of the repository:
  \<^verbatim>\<open>str.lower\<close>, the regular expression \<^verbatim>\<open>\b\w+\b\<close> applied with \<^verbatim>\<open>findall\<close>,
  \<^verbatim>\<open>str.isalpha\<close>, and NLTK's stop-word lists and stemmers for English and Spanish. They
  are the fields of \<open>nlp\<close>; the function itself is translated from the source.
\<close>

record nlp =
  str_lower :: "string \<Rightarrow> string"
  tok_pattern_findall :: "string \<Rightarrow> string list"
  str_isalpha :: "string \<Rightarrow> bool"
  stopwords_english :: "string set"
  stopwords_spanish :: "string set"
  stem_english :: "string \<Rightarrow> string"
  stem_spanish :: "string \<Rightarrow> string"

definition normalize_text :: "nlp \<Rightarrow> string \<Rightarrow> string \<Rightarrow> string list" where
  "normalize_text lib text language =
     (let text1 = str_lower lib text;
          tokens = tok_pattern_findall lib text1;
          current_stopwords =
            (if language = ''english'' then stopwords_english lib
             else if language = ''spanish'' then stopwords_spanish lib
             else stopwords_english lib);
          current_stemmer =
            (if language = ''english'' then stem_english lib
             else if language = ''spanish'' then stem_spanish lib
             else stem_english lib);
          filtered_tokens =
            filter (\<lambda>token. token \<notin> current_stopwords \<and> str_isalpha lib token) tokens
      in map current_stemmer filtered_tokens)"

section \<open>The worker: \<^verbatim>\<open>worker.calculate_tf\<close> and \<^verbatim>\<open>worker.process_document_task\<close>\<close>

text \<open>
  The loop of \<^verbatim>\<open>calculate_tf\<close>. \<^verbatim>\<open>tf_map[token][doc_id] += 1\<close> reads the entry before it
  writes it, and raises \<^verbatim>\<open>KeyError\<close> when a key is missing.
\<close>

fun calculate_tf_loop :: "string \<Rightarrow> index \<Rightarrow> string list \<Rightarrow> exn + index" where
  "calculate_tf_loop doc tf_map [] = Inr tf_map"
| "calculate_tf_loop doc tf_map (token # tokens) =
     (let tf1 = (if map_of tf_map token = None
                 then AList.update token [(doc, 0)] tf_map else tf_map)
      in case map_of tf1 token of
           None \<Rightarrow> Inl KeyError
         | Some inner \<Rightarrow>
             (case map_of inner doc of
                None \<Rightarrow> Inl KeyError
              | Some c \<Rightarrow>
                  calculate_tf_loop doc
                    (AList.update token (AList.update doc (c + 1) inner) tf1) tokens))"

definition calculate_tf :: "string list \<Rightarrow> string \<Rightarrow> exn + index" where
  "calculate_tf tokens doc = (if tokens = [] then Inr [] else calculate_tf_loop doc [] tokens)"

text \<open>
  The partial index as the coordinator decodes it from the published JSON: the same
  dictionary, its integers as JSON integers.
\<close>

definition partial_index_json :: "index \<Rightarrow> partial_index" where
  "partial_index_json tf_map =
     map (\<lambda>(tm, inner). (tm, PyDict (map (\<lambda>(d, c). (d, PyInt c)) inner))) tf_map"

text \<open>
  A message popped from the worker's queue, after \<^verbatim>\<open>json.loads\<close> and the reads of
  \<^verbatim>\<open>'doc_id'\<close>, \<^verbatim>\<open>'content'\<close> and \<^verbatim>\<open>'language'\<close>: text that is not JSON, an object that lacks
  \<^verbatim>\<open>'doc_id'\<close> or \<^verbatim>\<open>'content'\<close>, or a task with string fields (the coordinator serialises
  \<^verbatim>\<open>DocumentTask\<close>, whose fields are strings; the language is optional).
\<close>

datatype task_message =
    Undecodable
  | Incomplete
  | Task string string "string option"

text \<open>
  What the worker's broker connection does during one task: whether a new connection can
  be made (\<^verbatim>\<open>ping\<close>), and the reply of \<^verbatim>\<open>publish\<close>, the number of subscribers or an error.
\<close>

record worker_broker =
  ping_ok :: bool
  publish_reply :: "exn + nat"

text \<open>
  \<^verbatim>\<open>worker.get_redis_client\<close>: the module keeps the client once it is connected
  (\<open>cached\<close>), and only a new connection is checked with \<^verbatim>\<open>ping\<close>.
\<close>

definition get_redis_client :: "bool \<Rightarrow> worker_broker \<Rightarrow> (exn + unit) \<times> bool" where
  "get_redis_client cached b =
     (if cached then (Inr (), True)
      else if ping_ok b then (Inr (), True)
      else (Inl ConnectionError, False))"

text \<open>
  The dictionary \<^verbatim>\<open>result_payload\<close> that the worker serialises with \<^verbatim>\<open>json.dumps\<close> and
  publishes, as the JSON value a subscriber decodes from it.
\<close>

definition result_payload :: "string \<Rightarrow> string \<Rightarrow> index \<Rightarrow> string \<Rightarrow> pyval" where
  "result_payload worker_name doc tf_map language_to_use =
     PyDict [(''worker_id'', PyStr worker_name),
             (''doc_id'', PyStr doc),
             (''partial_index'', PyDict (partial_index_json tf_map)),
             (''language'', PyStr language_to_use)]"

text \<open>
  The outcome of one task: a payload published (with the number of subscribers that
  received it), a return without publishing because no tokens were left, a return because
  Redis could not be reached, or an exception caught and logged.
\<close>

datatype task_outcome =
    Published pyval nat
  | NoTokens
  | NoRedis
  | Logged exn

definition process_document_task ::
  "nlp \<Rightarrow> string \<Rightarrow> string \<Rightarrow> bool \<Rightarrow> worker_broker \<Rightarrow> task_message \<Rightarrow> task_outcome \<times> bool" where
  "process_document_task lib PROCESSING_LANGUAGE worker_name cached b msg =
     (case get_redis_client cached b of
        (Inl e, cached1) \<Rightarrow> (NoRedis, cached1)
      | (Inr r_client, cached1) \<Rightarrow>
          (case msg of
             Undecodable \<Rightarrow> (Logged JSONDecodeError, cached1)
           | Incomplete \<Rightarrow> (Logged KeyError, cached1)
           | Task doc content language \<Rightarrow>
               (let language_to_use =
                      (case language of None \<Rightarrow> PROCESSING_LANGUAGE | Some l \<Rightarrow> l);
                    processed_tokens = normalize_text lib content language_to_use
                in if processed_tokens = [] then (NoTokens, cached1)
                   else
                     (case calculate_tf processed_tokens doc of
                        Inl e \<Rightarrow> (Logged e, cached1)
                      | Inr tf_map \<Rightarrow>
                          (case publish_reply b of
                             Inl e \<Rightarrow> (Logged e, cached1)
                           | Inr num_published \<Rightarrow>
                               (Published
                                  (result_payload worker_name doc tf_map language_to_use)
                                  num_published, cached1))))))"

section \<open>The results listener: \<^verbatim>\<open>task_queue.start_results_listener\<close>\<close>

text \<open>
  The data of a message on the results channel: text that \<^verbatim>\<open>json.loads\<close> rejects, or the
  JSON value it decodes to.
\<close>

datatype pubsub_data = NotJson | JsonValue pyval

text \<open>
  The handling of one message in the listener's loop. \<^verbatim>\<open>PartialIndexData(**data_dict)\<close> is
  pydantic's validation, a library outside the repository: \<open>validate\<close> is its result on
  the keyword arguments, \<^verbatim>\<open>None\<close> when it raises. A value that is not an object cannot be
  unpacked with \<^verbatim>\<open>**\<close>. Every exception is caught and logged, and the message dropped;
  only a validated record reaches \<^verbatim>\<open>handle_partial_index_message\<close>.
\<close>

definition on_results_message ::
  "((string \<times> pyval) list \<Rightarrow> partial_index_data option) \<Rightarrow> coordinator \<Rightarrow> pubsub_data
     \<Rightarrow> coordinator" where
  "on_results_message validate st message_data =
     (case message_data of
        NotJson \<Rightarrow> st
      | JsonValue v \<Rightarrow>
          (case v of
             PyDict data_dict \<Rightarrow>
               (case validate data_dict of
                  None \<Rightarrow> st
                | Some partial_index_obj \<Rightarrow> handle_partial_index_message st partial_index_obj)
           | _ \<Rightarrow> st))"

text \<open>
  The messages that reach the coordinator's listener from one task: the published
  payload, when a subscriber received it.
\<close>

definition delivered_results :: "task_outcome \<Rightarrow> pubsub_data list" where
  "delivered_results outcome =
     (case outcome of
        Published payload num_published \<Rightarrow>
          (if 0 < num_published then [JsonValue payload] else [])
      | _ \<Rightarrow> [])"

definition listener_receives ::
  "((string \<times> pyval) list \<Rightarrow> partial_index_data option) \<Rightarrow> coordinator \<Rightarrow> pubsub_data list
     \<Rightarrow> coordinator" where
  "listener_receives validate st messages = foldl (on_results_message validate) st messages"

section \<open>The broker as the coordinator sees it\<close>

text \<open>
  Redis is outside the repository; the model takes its replies as given. A field of a
  worker's status hash is missing, or text that \<^verbatim>\<open>float()\<close> rejects with \<^verbatim>\<open>ValueError\<close>, or
  text that \<^verbatim>\<open>float()\<close> reads as the given float (\<^verbatim>\<open>'nan'\<close> and \<^verbatim>\<open>'inf'\<close> are read too).
\<close>

datatype hash_field = Missing | Unparsable | Number pyfloat

text \<open>
  One key \<^verbatim>\<open>worker_status:<worker_id>\<close> returned by \<^verbatim>\<open>KEYS\<close>, with the replies to \<^verbatim>\<open>TTL\<close> and
  \<^verbatim>\<open>HGETALL\<close> for the key and to \<^verbatim>\<open>LLEN\<close> for the worker's task queue.
\<close>

record worker_status_entry =
  key_worker_id :: string
  key_ttl :: int
  hash_cpu :: hash_field
  hash_ram :: hash_field
  queue_llen :: "nat option"

text \<open>
  The replies during one request: whether \<^verbatim>\<open>ping\<close> succeeds (it raises
  \<^verbatim>\<open>ConnectionError\<close> otherwise), the status keys in the order \<^verbatim>\<open>KEYS\<close> lists them (or the
  error a command raised), and the reply of \<^verbatim>\<open>RPUSH\<close>, the new length of the queue.
\<close>

record broker =
  reachable :: bool
  status_replies :: "exn + worker_status_entry list"
  rpush_reply :: "exn + nat"

datatype redis_client = Redis

text \<open>
  \<^verbatim>\<open>task_queue.get_publisher_redis_client\<close>. The first argument says whether the module
  holds a client already. The first \<^verbatim>\<open>ping\<close>, of the client held, is outside the \<^verbatim>\<open>try\<close>;
  the second, of a new client, is inside, and its handler resets the client and raises
  again.
\<close>

definition get_publisher_redis_client ::
  "bool \<Rightarrow> broker \<Rightarrow> (exn + redis_client option) \<times> bool" where
  "get_publisher_redis_client held b =
     (if held then
        (if reachable b then (Inr (Some Redis), True) else (Inl ConnectionError, True))
      else
        (if reachable b then (Inr (Some Redis), True) else (Inl ConnectionError, False)))"

section \<open>The dispatcher: \<^verbatim>\<open>task_queue.get_least_loaded_worker\<close>\<close>

definition float_or_default :: "hash_field \<Rightarrow> pyfloat \<Rightarrow> exn + pyfloat" where
  "float_or_default field dflt =
     (case field of Missing \<Rightarrow> Inr dflt | Unparsable \<Rightarrow> Inl ValueError | Number x \<Rightarrow> Inr x)"

text \<open>The \<^verbatim>\<open>try\<close> block that reads \<^verbatim>\<open>cpu\<close> and \<^verbatim>\<open>ram\<close>; its handler sets both to 100.\<close>

definition status_cpu_ram :: "hash_field \<Rightarrow> hash_field \<Rightarrow> pyfloat \<times> pyfloat" where
  "status_cpu_ram cpu_str ram_str =
     (case float_or_default cpu_str (Finite 100) of
        Inl e \<Rightarrow> (Finite 100, Finite 100)
      | Inr cpu \<Rightarrow>
          (case float_or_default ram_str (Finite 100) of
             Inl e \<Rightarrow> (Finite 100, Finite 100)
           | Inr ram \<Rightarrow> (cpu, ram)))"

text \<open>
  A candidate is \<open>(worker_id, queue_length, load_metric)\<close>. What the Python runtime does to
  candidates is not code of the repository: \<open>float_add\<close> is the addition of two doubles
  (\<^verbatim>\<open>cpu + ram\<close>), and \<open>sort_candidates\<close> is
  \<^verbatim>\<open>candidate_workers.sort(key=lambda x: (x[1], x[2]))\<close>.
\<close>

type_synonym candidate = "string \<times> enat \<times> pyfloat"

record py_runtime =
  float_add :: "pyfloat \<Rightarrow> pyfloat \<Rightarrow> pyfloat"
  sort_candidates :: "candidate list \<Rightarrow> candidate list"

text \<open>
  The candidates, in the order of the keys. A key whose TTL is negative and not \<open>-1\<close> is
  skipped; a missing queue length is \<^verbatim>\<open>float('inf')\<close>.
\<close>

definition candidate_workers :: "py_runtime \<Rightarrow> worker_status_entry list \<Rightarrow> candidate list" where
  "candidate_workers rt entries =
     map (\<lambda>e. (key_worker_id e,
               (case queue_llen e of None \<Rightarrow> \<infinity> | Some n \<Rightarrow> enat n),
               (case status_cpu_ram (hash_cpu e) (hash_ram e) of
                  (cpu, ram) \<Rightarrow> float_add rt cpu ram)))
       (filter (\<lambda>e. \<not> (key_ttl e < 0 \<and> key_ttl e \<noteq> - 1)) entries)"

text \<open>
  The sort key \<^verbatim>\<open>lambda x: (x[1], x[2])\<close>, and Python's \<^verbatim>\<open><\<close> on two such tuples: the first
  components decide when they differ (\<^verbatim>\<open>!=\<close>), otherwise the second components decide when
  they differ, otherwise the tuples are equal and neither is less. The queue length is an
  integer or \<^verbatim>\<open>float('inf')\<close>, compared exactly.
\<close>

definition candidate_key :: "candidate \<Rightarrow> enat \<times> pyfloat" where
  "candidate_key x = (fst (snd x), snd (snd x))"

definition key_lt :: "enat \<times> pyfloat \<Rightarrow> enat \<times> pyfloat \<Rightarrow> bool" where
  "key_lt k1 k2 =
     (if fst k1 \<noteq> fst k2 then fst k1 < fst k2
      else if \<not> float_eq (snd k1) (snd k2) then float_lt (snd k1) (snd k2)
      else False)"

definition candidate_lt :: "candidate \<Rightarrow> candidate \<Rightarrow> bool" where
  "candidate_lt x y = key_lt (candidate_key x) (candidate_key y)"

text \<open>
  What \<^verbatim>\<open>list.sort\<close> is documented to return when \<^verbatim>\<open><\<close> orders the keys consistently: the
  elements in ascending order, those that compare equal in their original order (the sort
  is stable). It is the insertion of each element, from the last to the first, before the
  first element that is not less than it.
\<close>

fun insort_by :: "('a \<Rightarrow> 'a \<Rightarrow> bool) \<Rightarrow> 'a \<Rightarrow> 'a list \<Rightarrow> 'a list" where
  "insort_by lt x [] = [x]"
| "insort_by lt x (y # ys) = (if lt y x then y # insort_by lt x ys else x # y # ys)"

definition stable_sort_by :: "('a \<Rightarrow> 'a \<Rightarrow> bool) \<Rightarrow> 'a list \<Rightarrow> 'a list" where
  "stable_sort_by lt xs = foldr (insort_by lt) xs []"

text \<open>
  A runtime for examples: its addition is exact on finite values, as the addition of
  doubles is on the small whole numbers used in the examples, and its sort is the stable
  sort above.
\<close>

definition example_add :: "pyfloat \<Rightarrow> pyfloat \<Rightarrow> pyfloat" where
  "example_add a b =
     (case (a, b) of
        (Finite x, Finite y) \<Rightarrow> Finite (x + y)
      | (NaN, _) \<Rightarrow> NaN
      | (_, NaN) \<Rightarrow> NaN
      | (PosInf, NegInf) \<Rightarrow> NaN
      | (NegInf, PosInf) \<Rightarrow> NaN
      | (PosInf, _) \<Rightarrow> PosInf
      | (_, PosInf) \<Rightarrow> PosInf
      | (NegInf, _) \<Rightarrow> NegInf
      | (_, NegInf) \<Rightarrow> NegInf)"

definition example_runtime :: py_runtime where
  "example_runtime =
     \<lparr>float_add = example_add, sort_candidates = stable_sort_by candidate_lt\<rparr>"

text \<open>
  \<^verbatim>\<open>get_least_loaded_worker\<close>. \<^verbatim>\<open>candidate_workers[0]\<close> raises \<^verbatim>\<open>IndexError\<close> on an empty
  list (a sort does not empty a list, so this does not happen with Python's).
\<close>

definition get_least_loaded_worker ::
  "py_runtime \<Rightarrow> worker_status_entry list \<Rightarrow> exn + string option" where
  "get_least_loaded_worker rt entries =
     (if entries = [] then Inr None
      else
        (let cs = candidate_workers rt entries
         in if cs = [] then Inr None
            else
              (case sort_candidates rt cs of
                 [] \<Rightarrow> Inl IndexError
               | selected # others \<Rightarrow> Inr (Some (fst selected)))))"

section \<open>Dispatch: \<^verbatim>\<open>task_queue.push_task_to_queue\<close> and \<^verbatim>\<open>main.trigger_local_indexing_endpoint\<close>\<close>

text \<open>
  \<^verbatim>\<open>push_task_to_queue\<close> returns the new length of the selected worker's queue, or \<^verbatim>\<open>None\<close>;
  every exception is caught inside it. \<^verbatim>\<open>if not worker_id\<close> is true for \<^verbatim>\<open>None\<close> and for the
  empty string (the id of a key that is just \<^verbatim>\<open>worker_status:\<close>). The second component
  says whether the module still holds its client (the handler for \<^verbatim>\<open>RedisError\<close> drops
  it).
\<close>

definition push_task_to_queue :: "py_runtime \<Rightarrow> bool \<Rightarrow> broker \<Rightarrow> nat option \<times> bool" where
  "push_task_to_queue rt held b =
     (case get_publisher_redis_client held b of
        (Inl e, held1) \<Rightarrow> (None, if is_RedisError e then False else held1)
      | (Inr None, held1) \<Rightarrow> (None, held1)
      | (Inr (Some r_client), held1) \<Rightarrow>
          (case status_replies b of
             Inl e \<Rightarrow> (None, if is_RedisError e then False else held1)
           | Inr entries \<Rightarrow>
               (case get_least_loaded_worker rt entries of
                  Inl e \<Rightarrow> (None, if is_RedisError e then False else held1)
                | Inr None \<Rightarrow> (None, held1)
                | Inr (Some worker) \<Rightarrow>
                    if worker = [] then (None, held1)
                    else
                      (case rpush_reply b of
                         Inl e \<Rightarrow> (None, if is_RedisError e then False else held1)
                       | Inr n \<Rightarrow> (Some n, held1)))))"

text \<open>
  Characters are code points below 256. \<^verbatim>\<open>str.strip()\<close> removes the white space of
  \<^verbatim>\<open>str.isspace\<close> from both ends.
\<close>

definition py_isspace :: "char \<Rightarrow> bool" where
  "py_isspace c = ((of_char c :: nat) \<in> {9, 10, 11, 12, 13, 28, 29, 30, 31, 32, 133, 160})"

definition py_strip :: "string \<Rightarrow> string" where
  "py_strip s = rev (dropWhile py_isspace (rev (dropWhile py_isspace s)))"

definition py_endswith :: "string \<Rightarrow> string \<Rightarrow> bool" where
  "py_endswith s suffix =
     (length suffix \<le> length s \<and> drop (length s - length suffix) s = suffix)"

text \<open>
  A directory entry: its name, what reading it gives (the text, or the exception raised),
  and the broker's replies at the time its task is pushed.
\<close>

record local_file =
  file_name :: string
  file_read :: "exn + string"
  file_broker :: broker

datatype failure = SkippedEmpty | PushFailed | ErrorReadingOrDispatching exn

record indexing_run =
  run_state :: coordinator
  client_held :: bool
  files_found_count :: nat
  successful_files :: "string list"
  failed_files_details :: "(string \<times> failure) list"

text \<open>
  The two blocks under \<^verbatim>\<open>index_lock\<close> around the push: the document is put into the
  pending set before the push, and the outcome of the push is recorded after it; when the
  push returned \<^verbatim>\<open>None\<close> the document is taken out again.
\<close>

definition add_pending :: "indexing_run \<Rightarrow> string \<Rightarrow> indexing_run" where
  "add_pending run doc =
     run\<lparr>run_state := (run_state run)\<lparr>dispatched_docs_pending_results :=
            insert doc (dispatched_docs_pending_results (run_state run))\<rparr>\<rparr>"

definition record_push :: "indexing_run \<Rightarrow> string \<Rightarrow> nat option \<times> bool \<Rightarrow> indexing_run" where
  "record_push run doc pushed =
     (case pushed of
        (Some pushed_length, held1) \<Rightarrow>
          run\<lparr>successful_files := successful_files run @ [doc], client_held := held1\<rparr>
      | (None, held1) \<Rightarrow>
          run\<lparr>failed_files_details := failed_files_details run @ [(doc, PushFailed)],
              client_held := held1,
              run_state := (run_state run)\<lparr>dispatched_docs_pending_results :=
                (if doc \<in> dispatched_docs_pending_results (run_state run)
                 then dispatched_docs_pending_results (run_state run) - {doc}
                 else dispatched_docs_pending_results (run_state run))\<rparr>\<rparr>)"

text \<open>
  The body of the \<^verbatim>\<open>try\<close> statement for one \<^verbatim>\<open>.txt\<close> file and its \<^verbatim>\<open>except Exception\<close>
  handler, which runs when the file cannot be read.
\<close>

definition dispatch_local_file :: "py_runtime \<Rightarrow> indexing_run \<Rightarrow> local_file \<Rightarrow> indexing_run" where
  "dispatch_local_file rt run f =
     (let doc = file_name f; st = run_state run;
          pending = dispatched_docs_pending_results st
      in case file_read f of
           Inl e \<Rightarrow>
             run\<lparr>failed_files_details := failed_files_details run @ [(doc, ErrorReadingOrDispatching e)],
                 run_state := st\<lparr>dispatched_docs_pending_results :=
                                  (if doc \<in> pending then pending - {doc} else pending)\<rparr>\<rparr>
         | Inr content_str \<Rightarrow>
             if py_strip content_str = [] then
               run\<lparr>failed_files_details := failed_files_details run @ [(doc, SkippedEmpty)]\<rparr>
             else
               (let run1 = add_pending run doc
                in record_push run1 doc
                     (push_task_to_queue rt (client_held run1) (file_broker f))))"

definition scan_file :: "py_runtime \<Rightarrow> indexing_run \<Rightarrow> local_file \<Rightarrow> indexing_run" where
  "scan_file rt run f =
     (if py_endswith (file_name f) ''.txt''
      then dispatch_local_file rt (run\<lparr>files_found_count := files_found_count run + 1\<rparr>) f
      else run)"

text \<open>
  The endpoint: \<^verbatim>\<open>None\<close> for the listing means the path is not a directory (status 404).
  The response is built from the fields of the run.
\<close>

definition trigger_local_indexing_endpoint ::
  "py_runtime \<Rightarrow> coordinator \<Rightarrow> bool \<Rightarrow> local_file list option \<Rightarrow> exn + indexing_run" where
  "trigger_local_indexing_endpoint rt st held listing =
     (case listing of
        None \<Rightarrow> Inl (HTTPException 404)
      | Some files \<Rightarrow>
          Inr (foldl (scan_file rt)
                 \<lparr>run_state = st, client_held = held, files_found_count = 0,
                  successful_files = [], failed_files_details = []\<rparr> files))"

section \<open>Query resolution: \<^verbatim>\<open>main.search_endpoint\<close>\<close>

text \<open>
  \<^verbatim>\<open>sorted(items, key=..., reverse=True)\<close>: CPython reverses the list, sorts it stably in
  ascending order and reverses it again, so equal keys keep their original order.
\<close>

definition py_sorted_reverse :: "('a \<Rightarrow> 'k::linorder) \<Rightarrow> 'a list \<Rightarrow> 'a list" where
  "py_sorted_reverse key xs = rev (sort_key key (rev xs))"

definition search_endpoint ::
  "nlp \<Rightarrow> string \<Rightarrow> coordinator \<Rightarrow> string \<Rightarrow> exn + (string \<times> int) list" where
  "search_endpoint lib COORDINATOR_PROCESSING_LANGUAGE st query_term =
     (if py_strip query_term = [] then Inl (HTTPException 400)
      else
        (case normalize_text lib query_term COORDINATOR_PROCESSING_LANGUAGE of
           [] \<Rightarrow> Inr []
         | search_stem # other_stems \<Rightarrow>
             (case map_of (global_inverted_index st) search_stem of
                None \<Rightarrow> Inr []
              | Some doc_freq_map \<Rightarrow> Inr (py_sorted_reverse snd doc_freq_map))))"

section \<open>Checkpoint reload: \<^verbatim>\<open>main.load_index_endpoint\<close>\<close>

text \<open>
  What opening and decoding the checkpoint file gives: one of the failures the function
  handles, or a JSON object, of which only the value at \<^verbatim>\<open>'index'\<close> matters (absent, or an
  index of the declared type \<^verbatim>\<open>Dict[str, Dict[str, int]]\<close>).
\<close>

datatype checkpoint_file =
    FileNotFound
  | BadJson
  | BadGzipFile
  | UnexpectedFailure
  | Document "index option"

definition load_global_index_from_file :: "checkpoint_file \<Rightarrow> index" where
  "load_global_index_from_file file =
     (case file of
        Document (Some loaded_index) \<Rightarrow> loaded_index
      | Document None \<Rightarrow> []
      | FileNotFound \<Rightarrow> []
      | BadJson \<Rightarrow> []
      | BadGzipFile \<Rightarrow> []
      | UnexpectedFailure \<Rightarrow> [])"

text \<open>
  The one \<^verbatim>\<open>with index_lock\<close> block of the endpoint that assigns the index and clears the
  pending set.
\<close>

definition install_loaded_index :: "index \<Rightarrow> coordinator \<Rightarrow> coordinator" where
  "install_loaded_index loaded_index st =
     st\<lparr>global_inverted_index := loaded_index, dispatched_docs_pending_results := {}\<rparr>"

definition load_index_endpoint :: "checkpoint_file \<Rightarrow> coordinator \<Rightarrow> coordinator" where
  "load_index_endpoint file st = install_loaded_index (load_global_index_from_file file) st"

section \<open>Worker status: \<^verbatim>\<open>main.get_workers_status_endpoint\<close>\<close>

record worker_status =
  ws_worker_id :: string
  cpu_percent :: "pyfloat option"
  ram_percent :: "pyfloat option"
  status_ttl_seconds :: "int option"
  queue_length :: "nat option"

definition float_or_none :: "hash_field \<Rightarrow> exn + pyfloat option" where
  "float_or_none field =
     (case field of Missing \<Rightarrow> Inr None | Unparsable \<Rightarrow> Inl ValueError | Number x \<Rightarrow> Inr (Some x))"

fun collect_statuses :: "worker_status_entry list \<Rightarrow> exn + worker_status list" where
  "collect_statuses [] = Inr []"
| "collect_statuses (e # entries) =
     (case float_or_none (hash_cpu e) of
        Inl err \<Rightarrow> Inl err
      | Inr cpu \<Rightarrow>
          (case float_or_none (hash_ram e) of
             Inl err \<Rightarrow> Inl err
           | Inr ram \<Rightarrow>
               (case collect_statuses entries of
                  Inl err \<Rightarrow> Inl err
                | Inr rest \<Rightarrow>
                    Inr (\<lparr>ws_worker_id = key_worker_id e, cpu_percent = cpu, ram_percent = ram,
                          status_ttl_seconds = (if 0 \<le> key_ttl e then Some (key_ttl e) else None),
                          queue_length = queue_llen e\<rparr> # rest))))"

text \<open>The body of the \<^verbatim>\<open>try\<close> statement of the endpoint.\<close>

definition workers_status_body :: "bool \<Rightarrow> broker \<Rightarrow> exn + worker_status list" where
  "workers_status_body held b =
     (case fst (get_publisher_redis_client held b) of
        Inl e \<Rightarrow> Inl e
      | Inr None \<Rightarrow> Inl (HTTPException 503)
      | Inr (Some r_client) \<Rightarrow>
          (case status_replies b of
             Inl e \<Rightarrow> Inl e
           | Inr entries \<Rightarrow>
               (case collect_statuses entries of
                  Inl e \<Rightarrow> Inl e
                | Inr worker_statuses \<Rightarrow> Inr (sort_key ws_worker_id worker_statuses))))"

text \<open>
  The two handlers: \<^verbatim>\<open>except redis.exceptions.RedisError\<close> and \<^verbatim>\<open>except Exception\<close>. Both
  raise \<^verbatim>\<open>HTTPException(status_code=500)\<close>; the second also catches the
  \<^verbatim>\<open>HTTPException(status_code=503)\<close> raised inside the \<^verbatim>\<open>try\<close>.
\<close>

definition get_workers_status_endpoint :: "bool \<Rightarrow> broker \<Rightarrow> exn + worker_status list" where
  "get_workers_status_endpoint held b =
     (case workers_status_body held b of
        Inl e \<Rightarrow> (if is_RedisError e then Inl (HTTPException 500) else Inl (HTTPException 500))
      | Inr workers \<Rightarrow> Inr workers)"
section \<open>Properties of the Fuser\<close>

lemma merge_term_skip:
  "valid_freq d v = None \<Longrightarrow> merge_term d g (tm, v) = g"
  by (auto simp: merge_term_def valid_freq_def split: pyval.splits option.splits if_splits)

lemma index_map_merge_term:
  "index_map (merge_term d g item) = merge_term_map d (index_map g) item"
proof (cases item)
  case (Pair tm v)
  show ?thesis
  proof (cases "valid_freq d v")
    case None
    then show ?thesis by (simp add: Pair merge_term_skip merge_term_map_def)
  next
    case (Some f)
    then obtain m fv where v: "v = PyDict m" and m: "map_of m d = Some fv"
      and ok: "isinstance_int fv" "0 \<le> int_value fv" and f: "f = int_value fv"
      by (auto simp: valid_freq_def split: pyval.splits option.splits if_splits)
    show ?thesis
    proof (cases "map_of g tm")
      case None
      then show ?thesis
        using v m ok f Some
        by (auto simp: Pair merge_term_def merge_term_map_def write_freq_def index_map_def
            update_conv' fun_eq_iff)
    next
      case (Some inner)
      then show ?thesis
        using v m ok f \<open>valid_freq d v = Some f\<close>
        by (auto simp: Pair merge_term_def merge_term_map_def write_freq_def index_map_def
            update_conv' fun_eq_iff)
    qed
  qed
qed

lemma index_map_merge_partial_index:
  "index_map (merge_partial_index g p d) = foldl (merge_term_map d) (index_map g) p"
  unfolding merge_partial_index_def
  by (induction p arbitrary: g) (simp_all add: index_map_merge_term)

lemma lookup_freq_index_map:
  "lookup_freq g tm d = (case index_map g tm of None \<Rightarrow> None | Some inner \<Rightarrow> inner d)"
  by (simp add: lookup_freq_def index_map_def split: option.splits)


lemma lookup_freq_content: "lookup_freq g tm d = content_freq (index_map g) tm d"
  by (simp add: lookup_freq_index_map content_freq_def)

lemma content_freq_merge_term_map_other:
  "\<not> (d' = d \<and> tm' = fst item \<and> valid_freq d (snd item) \<noteq> None) \<Longrightarrow>
     content_freq (merge_term_map d M item) tm' d' = content_freq M tm' d'"
  by (auto simp: merge_term_map_def write_freq_def content_freq_def split: option.splits)

lemma content_freq_merge_term_map_same:
  "valid_freq d (snd item) = Some f \<Longrightarrow>
     content_freq (merge_term_map d M item) (fst item) d = Some f"
  by (simp add: merge_term_map_def write_freq_def content_freq_def)

lemma content_freq_foldl_other:
  "\<not> (d' = d \<and> (\<exists>v. (tm', v) \<in> set p \<and> valid_freq d v \<noteq> None)) \<Longrightarrow>
     content_freq (foldl (merge_term_map d) M p) tm' d' = content_freq M tm' d'"
proof (induction p arbitrary: M)
  case Nil
  then show ?case by simp
next
  case (Cons item p)
  have step: "content_freq (merge_term_map d M item) tm' d' = content_freq M tm' d'"
  proof (rule content_freq_merge_term_map_other)
    show "\<not> (d' = d \<and> tm' = fst item \<and> valid_freq d (snd item) \<noteq> None)"
      using Cons.prems by (cases item) auto
  qed
  have rest: "\<not> (d' = d \<and> (\<exists>v. (tm', v) \<in> set p \<and> valid_freq d v \<noteq> None))"
    using Cons.prems by auto
  show ?case
    using Cons.IH [OF rest, of "merge_term_map d M item"] step by simp
qed

lemma content_freq_foldl_written:
  "distinct (map fst p) \<Longrightarrow> (tm, v) \<in> set p \<Longrightarrow> valid_freq d v = Some f \<Longrightarrow>
     content_freq (foldl (merge_term_map d) M p) tm d = Some f"
proof (induction p arbitrary: M)
  case Nil
  then show ?case by simp
next
  case (Cons item p)
  show ?case
  proof (cases "item = (tm, v)")
    case True
    have absent: "\<not> (d = d \<and> (\<exists>v'. (tm, v') \<in> set p \<and> valid_freq d v' \<noteq> None))"
      using Cons.prems(1) True by (force simp: image_iff)
    have "content_freq (foldl (merge_term_map d) (merge_term_map d M item) p) tm d
            = content_freq (merge_term_map d M item) tm d"
      by (rule content_freq_foldl_other [OF absent])
    also have "\<dots> = Some f"
      using content_freq_merge_term_map_same [of d item f M] True Cons.prems(3) by simp
    finally show ?thesis by simp
  next
    case False
    then have "(tm, v) \<in> set p" using Cons.prems(2) by auto
    moreover have "distinct (map fst p)" using Cons.prems(1) by simp
    ultimately show ?thesis using Cons.IH Cons.prems(3) by simp
  qed
qed

lemma valid_freq_Some_iff:
  "valid_freq d v = Some f \<longleftrightarrow>
     (\<exists>m fv. v = PyDict m \<and> map_of m d = Some fv \<and> isinstance_int fv \<and> 0 \<le> int_value fv
        \<and> f = int_value fv)"
  by (auto simp: valid_freq_def split: pyval.splits option.splits if_splits)

lemma valid_freq_None_iff:
  "valid_freq d v = None \<longleftrightarrow>
     ((\<forall>m. v \<noteq> PyDict m)
      \<or> (\<exists>m. v = PyDict m \<and> map_of m d = None)
      \<or> (\<exists>m fv. v = PyDict m \<and> map_of m d = Some fv
            \<and> \<not> (isinstance_int fv \<and> 0 \<le> int_value fv)))"
  by (auto simp: valid_freq_def split: pyval.splits option.splits if_splits)

lemma map_of_merge_term_other:
  "tm \<noteq> fst item \<or> valid_freq d (snd item) = None \<Longrightarrow>
     map_of (merge_term d g item) tm = map_of g tm"
proof (cases item)
  case (Pair tm' v)
  assume a: "tm \<noteq> fst item \<or> valid_freq d (snd item) = None"
  show ?thesis
  proof (cases "valid_freq d v")
    case None
    then show ?thesis by (simp add: Pair merge_term_skip)
  next
    case (Some f)
    then have "tm \<noteq> tm'" using a Pair by auto
    then show ?thesis
      by (auto simp: Pair merge_term_def update_conv' Let_def
          split: pyval.splits option.splits)
  qed
qed

lemma map_of_merge_partial_index_skipped:
  "(\<forall>item \<in> set p. fst item = tm \<longrightarrow> valid_freq d (snd item) = None) \<Longrightarrow>
     map_of (merge_partial_index g p d) tm = map_of g tm"
  unfolding merge_partial_index_def
proof (induction p arbitrary: g)
  case Nil
  then show ?case by simp
next
  case (Cons item p)
  have "map_of (merge_term d g item) tm = map_of g tm"
    using Cons.prems by (intro map_of_merge_term_other) auto
  moreover have "map_of (foldl (merge_term d) (merge_term d g item) p) tm
                   = map_of (merge_term d g item) tm"
    using Cons.prems by (intro Cons.IH) auto
  ultimately show ?case by simp
qed

lemma merge_partial_index_written:
  assumes "distinct (map fst p)" "(tm, PyDict m) \<in> set p" "map_of m d = Some fv"
    "isinstance_int fv" "0 \<le> int_value fv"
  shows "lookup_freq (merge_partial_index g p d) tm d = Some (int_value fv)"
proof -
  have "valid_freq d (PyDict m) = Some (int_value fv)"
    using assms(3-5) by (simp add: valid_freq_def)
  then show ?thesis
    using content_freq_foldl_written [OF assms(1,2)]
    by (simp add: lookup_freq_content index_map_merge_partial_index)
qed

text \<open>
  C1. A call of the Fuser on a partial index (a dictionary, so with distinct terms) and a
  document: every term whose inner value is a dictionary that holds the document with a
  non-negative integer frequency \<open>f\<close> has \<open>global_index[term][doc_id] = f\<close> afterwards,
  whatever was stored there before (and whether or not the term was in the index); every
  other entry \<open>(term', doc')\<close> of the index is what it was before the call. Python's \<^verbatim>\<open>bool\<close>
  counts as an integer here, as \<^verbatim>\<open>isinstance\<close> says.
\<close>

theorem merge_partial_index_sets_frequency:
  assumes "distinct (map fst p)"
  shows "(\<forall>tm m fv.
            (tm, PyDict m) \<in> set p \<and> map_of m d = Some fv \<and> isinstance_int fv
              \<and> 0 \<le> int_value fv
            \<longrightarrow> lookup_freq (merge_partial_index g p d) tm d = Some (int_value fv))
       \<and> (\<forall>tm' d'.
            \<not> (d' = d \<and> (\<exists>m fv. (tm', PyDict m) \<in> set p \<and> map_of m d = Some fv
                              \<and> isinstance_int fv \<and> 0 \<le> int_value fv))
            \<longrightarrow> lookup_freq (merge_partial_index g p d) tm' d' = lookup_freq g tm' d')"
proof (intro conjI allI impI)
  fix tm m fv
  assume "(tm, PyDict m) \<in> set p \<and> map_of m d = Some fv \<and> isinstance_int fv
            \<and> 0 \<le> int_value fv"
  then show "lookup_freq (merge_partial_index g p d) tm d = Some (int_value fv)"
    using merge_partial_index_written [OF assms] by blast
next
  fix tm' d'
  assume n: "\<not> (d' = d \<and> (\<exists>m fv. (tm', PyDict m) \<in> set p \<and> map_of m d = Some fv
                              \<and> isinstance_int fv \<and> 0 \<le> int_value fv))"
  have "\<not> (d' = d \<and> (\<exists>v. (tm', v) \<in> set p \<and> valid_freq d v \<noteq> None))"
  proof
    assume "d' = d \<and> (\<exists>v. (tm', v) \<in> set p \<and> valid_freq d v \<noteq> None)"
    then obtain v f where "d' = d" "(tm', v) \<in> set p" "valid_freq d v = Some f" by auto
    then show False using n by (auto simp: valid_freq_Some_iff)
  qed
  then show "lookup_freq (merge_partial_index g p d) tm' d' = lookup_freq g tm' d'"
    by (simp add: lookup_freq_content index_map_merge_partial_index content_freq_foldl_other)
qed

theorem merge_partial_index_sets_frequency_witness:
  "distinct (map fst [(''fox'', PyDict [(''d1.txt'', PyInt 3)]),
                      (''bad'', PyDict [(''dX.txt'', PyInt 7)])])
   \<and> lookup_freq
        (merge_partial_index [(''fox'', [(''d1.txt'', 1), (''d2.txt'', 5)])]
           [(''fox'', PyDict [(''d1.txt'', PyInt 3)]), (''bad'', PyDict [(''dX.txt'', PyInt 7)])]
           ''d1.txt'') ''fox'' ''d1.txt'' = Some 3
   \<and> lookup_freq
        (merge_partial_index [(''fox'', [(''d1.txt'', 1), (''d2.txt'', 5)])]
           [(''fox'', PyDict [(''d1.txt'', PyInt 3)]), (''bad'', PyDict [(''dX.txt'', PyInt 7)])]
           ''d1.txt'') ''fox'' ''d2.txt'' = Some 5"
proof -
  let ?p = "[(''fox'', PyDict [(''d1.txt'', PyInt 3)]), (''bad'', PyDict [(''dX.txt'', PyInt 7)])]"
  let ?g = "[(''fox'', [(''d1.txt'', 1::int), (''d2.txt'', 5)])]"
  have h: "distinct (map fst ?p)" by simp
  note t = merge_partial_index_sets_frequency [OF h, of "''d1.txt''" ?g]
  have a: "lookup_freq (merge_partial_index ?g ?p ''d1.txt'') ''fox'' ''d1.txt''
             = Some (int_value (PyInt 3))"
    using t by (elim conjE allE [of _ "''fox''"] allE [of _ "[(''d1.txt'', PyInt 3)]"]
        allE [of _ "PyInt 3"]) simp
  have b: "lookup_freq (merge_partial_index ?g ?p ''d1.txt'') ''fox'' ''d2.txt''
             = lookup_freq ?g ''fox'' ''d2.txt''"
    using t by (elim conjE allE [of _ "''fox''"] allE [of _ "''d2.txt''"]) simp
  show ?thesis using h a b by (simp add: lookup_freq_def)
qed

text \<open>
  C2. A term of the partial index whose inner value is not a dictionary, or does not hold
  the document, or holds it with something that is not a non-negative integer, is skipped:
  the index at that term is what it was (no inner map is created for it), and the valid
  terms of the same record are fused all the same.
\<close>

theorem merge_partial_index_skips_invalid:
  assumes "distinct (map fst p)"
    and "(tm, v) \<in> set p"
    and "(\<forall>m. v \<noteq> PyDict m)
         \<or> (\<exists>m. v = PyDict m \<and> map_of m d = None)
         \<or> (\<exists>m fv. v = PyDict m \<and> map_of m d = Some fv
               \<and> \<not> (isinstance_int fv \<and> 0 \<le> int_value fv))"
  shows "map_of (merge_partial_index g p d) tm = map_of g tm
       \<and> (\<forall>tm2 m2 fv2.
            (tm2, PyDict m2) \<in> set p \<and> map_of m2 d = Some fv2 \<and> isinstance_int fv2
              \<and> 0 \<le> int_value fv2
            \<longrightarrow> lookup_freq (merge_partial_index g p d) tm2 d = Some (int_value fv2))"
proof (intro conjI allI impI)
  have inv: "valid_freq d v = None"
    using assms(3) by (simp add: valid_freq_None_iff)
  have "\<forall>item \<in> set p. fst item = tm \<longrightarrow> valid_freq d (snd item) = None"
  proof (intro ballI impI)
    fix item assume i: "item \<in> set p" "fst item = tm"
    have "snd item = v"
      using assms(1,2) i by (metis eq_key_imp_eq_value prod.collapse)
    then show "valid_freq d (snd item) = None" using inv by simp
  qed
  then show "map_of (merge_partial_index g p d) tm = map_of g tm"
    by (rule map_of_merge_partial_index_skipped)
next
  fix tm2 m2 fv2
  assume "(tm2, PyDict m2) \<in> set p \<and> map_of m2 d = Some fv2 \<and> isinstance_int fv2
            \<and> 0 \<le> int_value fv2"
  then show "lookup_freq (merge_partial_index g p d) tm2 d = Some (int_value fv2)"
    using merge_partial_index_written [OF assms(1)] by blast
qed

theorem merge_partial_index_skips_invalid_witness:
  "distinct (map fst [(''foo'', PyDict [(''dX.txt'', PyInt 3)]),
                      (''neg'', PyDict [(''d9.txt'', PyInt (- 1))]),
                      (''fox'', PyDict [(''d9.txt'', PyInt 2)])])
   \<and> map_of
        (merge_partial_index [(''neg'', [(''d9.txt'', 4)])]
           [(''foo'', PyDict [(''dX.txt'', PyInt 3)]),
            (''neg'', PyDict [(''d9.txt'', PyInt (- 1))]),
            (''fox'', PyDict [(''d9.txt'', PyInt 2)])] ''d9.txt'') ''foo'' = None
   \<and> lookup_freq
        (merge_partial_index [(''neg'', [(''d9.txt'', 4)])]
           [(''foo'', PyDict [(''dX.txt'', PyInt 3)]),
            (''neg'', PyDict [(''d9.txt'', PyInt (- 1))]),
            (''fox'', PyDict [(''d9.txt'', PyInt 2)])] ''d9.txt'') ''fox'' ''d9.txt'' = Some 2"
proof -
  let ?p = "[(''foo'', PyDict [(''dX.txt'', PyInt 3)]),
             (''neg'', PyDict [(''d9.txt'', PyInt (- 1))]),
             (''fox'', PyDict [(''d9.txt'', PyInt 2)])]"
  let ?g = "[(''neg'', [(''d9.txt'', 4::int)])]"
  have h1: "distinct (map fst ?p)" by simp
  have h2: "(''foo'', PyDict [(''dX.txt'', PyInt 3)]) \<in> set ?p" by simp
  have h3: "(\<forall>m. PyDict [(''dX.txt'', PyInt 3)] \<noteq> PyDict m)
         \<or> (\<exists>m. PyDict [(''dX.txt'', PyInt 3)] = PyDict m \<and> map_of m ''d9.txt'' = None)
         \<or> (\<exists>m fv. PyDict [(''dX.txt'', PyInt 3)] = PyDict m \<and> map_of m ''d9.txt'' = Some fv
               \<and> \<not> (isinstance_int fv \<and> 0 \<le> int_value fv))"
    by simp
  note t = merge_partial_index_skips_invalid [OF h1 h2 h3, of ?g]
  have a: "map_of (merge_partial_index ?g ?p ''d9.txt'') ''foo'' = map_of ?g ''foo''"
    using t by blast
  have b: "lookup_freq (merge_partial_index ?g ?p ''d9.txt'') ''fox'' ''d9.txt''
             = Some (int_value (PyInt 2))"
    using t by (elim conjE allE [of _ "''fox''"] allE [of _ "[(''d9.txt'', PyInt 2)]"]
        allE [of _ "PyInt 2"]) simp
  show ?thesis using h1 a b by simp
qed

lemma write_freq_commute:
  "d1 \<noteq> d2 \<Longrightarrow>
     write_freq t1 d1 f1 (write_freq t2 d2 f2 M) = write_freq t2 d2 f2 (write_freq t1 d1 f1 M)"
  by (auto simp: write_freq_def fun_eq_iff split: option.splits)

lemma merge_term_map_commute:
  "d1 \<noteq> d2 \<Longrightarrow>
     merge_term_map d1 (merge_term_map d2 M y) x = merge_term_map d2 (merge_term_map d1 M x) y"
  by (auto simp: merge_term_map_def write_freq_commute split: option.splits)

lemma foldl_step_commute:
  "(\<And>a y. y \<in> set ys \<Longrightarrow> f (g a y) x = g (f a x) y) \<Longrightarrow>
     f (foldl g a ys) x = foldl g (f a x) ys"
  by (induction ys arbitrary: a) simp_all

lemma foldl_foldl_commute:
  "(\<And>a x y. x \<in> set xs \<Longrightarrow> y \<in> set ys \<Longrightarrow> f (g a y) x = g (f a x) y) \<Longrightarrow>
     foldl f (foldl g a ys) xs = foldl g (foldl f a xs) ys"
proof (induction xs arbitrary: a)
  case Nil
  then show ?case by simp
next
  case (Cons x xs)
  have "foldl f (foldl g a ys) (x # xs) = foldl f (f (foldl g a ys) x) xs" by simp
  also have "f (foldl g a ys) x = foldl g (f a x) ys"
    by (rule foldl_step_commute) (simp add: Cons.prems)
  also have "foldl f (foldl g (f a x) ys) xs = foldl g (foldl f (f a x) xs) ys"
    by (rule Cons.IH) (simp add: Cons.prems)
  finally show ?case by simp
qed

lemma foldl_mset_commute:
  "mset xs = mset ys \<Longrightarrow>
   (\<And>a x y. x \<in> set xs \<Longrightarrow> y \<in> set xs \<Longrightarrow> f (f a x) y = f (f a y) x) \<Longrightarrow>
     foldl f a xs = foldl f a ys"
proof (induction xs arbitrary: ys a)
  case Nil
  then show ?case by simp
next
  case (Cons x xs)
  have "x \<in> set ys" using Cons.prems(1) by (metis list.set_intros(1) mset_eq_setD)
  then obtain as bs where ys: "ys = as @ x # bs" by (meson split_list)
  have m: "mset xs = mset (as @ bs)" using Cons.prems(1) ys by simp
  have sub: "set as \<subseteq> set (x # xs)"
    using Cons.prems(1) ys by (metis Un_iff mset_eq_setD set_append subsetI)
  have move: "f (foldl f a as) x = foldl f (f a x) as"
  proof (rule foldl_step_commute)
    fix b y assume "y \<in> set as"
    then have "y \<in> set (x # xs)" using sub by auto
    then show "f (f b y) x = f (f b x) y" using Cons.prems(2) [of y x b] by simp
  qed
  have "foldl f a ys = foldl f (f (foldl f a as) x) bs" by (simp add: ys)
  also have "\<dots> = foldl f (f a x) (as @ bs)" by (simp add: move)
  also have "\<dots> = foldl f (f a x) xs"
  proof (rule sym, rule Cons.IH [OF m])
    fix b u w assume "u \<in> set xs" "w \<in> set xs"
    then show "f (f b u) w = f (f b w) u" using Cons.prems(2) [of u w b] by simp
  qed
  finally show ?case by simp
qed

lemma index_map_fuse_records:
  "index_map (foldl (\<lambda>g r. merge_partial_index g (partial_index r) (doc_id r)) g rs)
     = foldl (\<lambda>M r. foldl (merge_term_map (doc_id r)) M (partial_index r)) (index_map g) rs"
  by (induction rs arbitrary: g) (simp_all add: index_map_merge_partial_index)

text \<open>
  C3. Fusion commutes across documents. Two partial indexes for different documents can be
  fused in either order: the resulting indexes are equal as Python dictionaries (same
  content; only the insertion order of keys may differ). More generally, fusing a sequence
  of records with pairwise different \<open>doc_id\<close>s gives the same index as fusing any
  permutation of it. The records need not even be well formed.
\<close>

theorem fusion_commutes_across_documents:
  "(d1 \<noteq> d2 \<longrightarrow>
      index_map (merge_partial_index (merge_partial_index g p1 d1) p2 d2)
        = index_map (merge_partial_index (merge_partial_index g p2 d2) p1 d1))
   \<and> (distinct (map doc_id rs) \<and> mset rs = mset rs' \<longrightarrow>
      index_map (foldl (\<lambda>g r. merge_partial_index g (partial_index r) (doc_id r)) g rs)
        = index_map (foldl (\<lambda>g r. merge_partial_index g (partial_index r) (doc_id r)) g rs'))"
proof (intro conjI impI)
  assume ne: "d1 \<noteq> d2"
  have "foldl (merge_term_map d2) (foldl (merge_term_map d1) (index_map g) p1) p2
          = foldl (merge_term_map d1) (foldl (merge_term_map d2) (index_map g) p2) p1"
    by (rule foldl_foldl_commute) (simp add: merge_term_map_commute [OF ne])
  then show "index_map (merge_partial_index (merge_partial_index g p1 d1) p2 d2)
        = index_map (merge_partial_index (merge_partial_index g p2 d2) p1 d1)"
    by (simp add: index_map_merge_partial_index)
next
  assume a: "distinct (map doc_id rs) \<and> mset rs = mset rs'"
  let ?F = "\<lambda>M r. foldl (merge_term_map (doc_id r)) M (partial_index r)"
  have "foldl ?F (index_map g) rs = foldl ?F (index_map g) rs'"
  proof (rule foldl_mset_commute)
    show "mset rs = mset rs'" using a by simp
  next
    fix M x y assume xy: "x \<in> set rs" "y \<in> set rs"
    show "?F (?F M x) y = ?F (?F M y) x"
    proof (cases "x = y")
      case True
      then show ?thesis by simp
    next
      case False
      then have ne: "doc_id x \<noteq> doc_id y"
        using a xy by (meson distinct_map inj_onD)
      show ?thesis
        by (rule foldl_foldl_commute) (simp add: merge_term_map_commute [OF ne])
    qed
  qed
  then show "index_map (foldl (\<lambda>g r. merge_partial_index g (partial_index r) (doc_id r)) g rs)
        = index_map (foldl (\<lambda>g r. merge_partial_index g (partial_index r) (doc_id r)) g rs')"
    by (simp add: index_map_fuse_records)
qed

theorem fusion_commutes_across_documents_witness:
  "''d2.txt'' \<noteq> ''d3.txt''
   \<and> index_map (merge_partial_index
        (merge_partial_index [(''dog'', [(''d1.txt'', 4)])]
           [(''cat'', PyDict [(''d2.txt'', PyInt 2)]), (''dog'', PyDict [(''d2.txt'', PyInt 1)])]
           ''d2.txt'')
        [(''dog'', PyDict [(''d3.txt'', PyInt 1)])] ''d3.txt'')
     = index_map (merge_partial_index
        (merge_partial_index [(''dog'', [(''d1.txt'', 4)])]
           [(''dog'', PyDict [(''d3.txt'', PyInt 1)])] ''d3.txt'')
        [(''cat'', PyDict [(''d2.txt'', PyInt 2)]), (''dog'', PyDict [(''d2.txt'', PyInt 1)])]
        ''d2.txt'')
   \<and> distinct (map doc_id
        [\<lparr>worker_id = ''w1'', doc_id = ''d2.txt'',
           partial_index = [(''cat'', PyDict [(''d2.txt'', PyInt 2)])]\<rparr>,
         \<lparr>worker_id = ''w2'', doc_id = ''d3.txt'',
           partial_index = [(''dog'', PyDict [(''d3.txt'', PyInt 1)])]\<rparr>])
   \<and> index_map (foldl (\<lambda>g r. merge_partial_index g (partial_index r) (doc_id r))
        [(''dog'', [(''d1.txt'', 4)])]
        [\<lparr>worker_id = ''w1'', doc_id = ''d2.txt'',
           partial_index = [(''cat'', PyDict [(''d2.txt'', PyInt 2)])]\<rparr>,
         \<lparr>worker_id = ''w2'', doc_id = ''d3.txt'',
           partial_index = [(''dog'', PyDict [(''d3.txt'', PyInt 1)])]\<rparr>])
     = index_map (foldl (\<lambda>g r. merge_partial_index g (partial_index r) (doc_id r))
        [(''dog'', [(''d1.txt'', 4)])]
        [\<lparr>worker_id = ''w2'', doc_id = ''d3.txt'',
           partial_index = [(''dog'', PyDict [(''d3.txt'', PyInt 1)])]\<rparr>,
         \<lparr>worker_id = ''w1'', doc_id = ''d2.txt'',
           partial_index = [(''cat'', PyDict [(''d2.txt'', PyInt 2)])]\<rparr>])"
proof -
  let ?r1 = "\<lparr>worker_id = ''w1'', doc_id = ''d2.txt'',
               partial_index = [(''cat'', PyDict [(''d2.txt'', PyInt 2)])]\<rparr>"
  let ?r2 = "\<lparr>worker_id = ''w2'', doc_id = ''d3.txt'',
               partial_index = [(''dog'', PyDict [(''d3.txt'', PyInt 1)])]\<rparr>"
  have h1: "''d2.txt'' \<noteq> ''d3.txt''" by simp
  have h2: "distinct (map doc_id [?r1, ?r2]) \<and> mset [?r1, ?r2] = mset [?r2, ?r1]" by simp
  note t = fusion_commutes_across_documents [of "''d2.txt''" "''d3.txt''"
      "[(''dog'', [(''d1.txt'', 4)])]"
      "[(''cat'', PyDict [(''d2.txt'', PyInt 2)]), (''dog'', PyDict [(''d2.txt'', PyInt 1)])]"
      "[(''dog'', PyDict [(''d3.txt'', PyInt 1)])]"
      "[?r1, ?r2]" "[?r2, ?r1]"]
  have a: "index_map (merge_partial_index
        (merge_partial_index [(''dog'', [(''d1.txt'', 4)])]
           [(''cat'', PyDict [(''d2.txt'', PyInt 2)]), (''dog'', PyDict [(''d2.txt'', PyInt 1)])]
           ''d2.txt'')
        [(''dog'', PyDict [(''d3.txt'', PyInt 1)])] ''d3.txt'')
     = index_map (merge_partial_index
        (merge_partial_index [(''dog'', [(''d1.txt'', 4)])]
           [(''dog'', PyDict [(''d3.txt'', PyInt 1)])] ''d3.txt'')
        [(''cat'', PyDict [(''d2.txt'', PyInt 2)]), (''dog'', PyDict [(''d2.txt'', PyInt 1)])]
        ''d2.txt'')"
    using t h1 by blast
  have b: "index_map (foldl (\<lambda>g r. merge_partial_index g (partial_index r) (doc_id r))
        [(''dog'', [(''d1.txt'', 4)])]
             [?r1, ?r2])
     = index_map (foldl (\<lambda>g r. merge_partial_index g (partial_index r) (doc_id r))
        [(''dog'', [(''d1.txt'', 4)])]
             [?r2, ?r1])"
    using t h2 by blast
  show ?thesis using h1 h2 a b by blast
qed

section \<open>Properties of the worker\<close>

lemma calculate_tf_loop_counts:
  assumes "\<forall>t. map_of tf t
             = (if t \<in> set seen then Some [(doc, int (count_list seen t))] else None)"
  shows "\<exists>m. calculate_tf_loop doc tf tokens = Inr m
           \<and> (\<forall>t. map_of m t
                 = (if t \<in> set (seen @ tokens)
                    then Some [(doc, int (count_list (seen @ tokens) t))] else None))"
  using assms
proof (induction tokens arbitrary: tf seen)
  case Nil
  then show ?case by simp
next
  case (Cons x xs)
  define tf1 where "tf1 = (if map_of tf x = None then AList.update x [(doc, 0)] tf else tf)"
  define c where "c = (if x \<in> set seen then int (count_list seen x) else 0)"
  have inner: "map_of tf1 x = Some [(doc, c)]"
    using Cons.prems by (simp add: tf1_def c_def update_conv')
  define tf2 where "tf2 = AList.update x (AList.update doc (c + 1) [(doc, c)]) tf1"
  have step: "calculate_tf_loop doc tf (x # xs) = calculate_tf_loop doc tf2 xs"
    using inner by (simp add: tf1_def [symmetric] tf2_def Let_def)
  have c0: "x \<notin> set seen \<Longrightarrow> count_list seen x = 0"
    by simp
  have inv: "\<forall>t. map_of tf2 t
               = (if t \<in> set (seen @ [x])
                  then Some [(doc, int (count_list (seen @ [x]) t))] else None)"
  proof
    fix t
    show "map_of tf2 t
            = (if t \<in> set (seen @ [x])
               then Some [(doc, int (count_list (seen @ [x]) t))] else None)"
    proof (cases "t = x")
      case True
      then show ?thesis
        using c0 by (simp add: tf2_def update_conv' c_def)
    next
      case False
      then have "map_of tf2 t = map_of tf t"
        by (simp add: tf2_def tf1_def update_conv')
      then show ?thesis using False Cons.prems by simp
    qed
  qed
  have eq: "(seen @ [x]) @ xs = seen @ x # xs" by simp
  have "\<exists>m. calculate_tf_loop doc tf2 xs = Inr m
           \<and> (\<forall>t. map_of m t
                 = (if t \<in> set (seen @ x # xs)
                    then Some [(doc, int (count_list (seen @ x # xs) t))] else None))"
    using Cons.IH [OF inv] unfolding eq .
  then show ?case unfolding step .
qed

lemma calculate_tf_loop_distinct:
  "distinct (map fst tf) \<Longrightarrow> calculate_tf_loop doc tf tokens = Inr m \<Longrightarrow> distinct (map fst m)"
proof (induction tokens arbitrary: tf)
  case Nil
  then show ?case by simp
next
  case (Cons x xs)
  define tf1 where "tf1 = (if map_of tf x = None then AList.update x [(doc, 0)] tf else tf)"
  have d1: "distinct (map fst tf1)"
    using Cons.prems(1) by (simp add: tf1_def distinct_update)
  have "calculate_tf_loop doc tf (x # xs)
          = (case map_of tf1 x of
               None \<Rightarrow> Inl KeyError
             | Some inner \<Rightarrow>
                 (case map_of inner doc of
                    None \<Rightarrow> Inl KeyError
                  | Some c \<Rightarrow>
                      calculate_tf_loop doc
                        (AList.update x (AList.update doc (c + 1) inner) tf1) xs))"
    unfolding tf1_def by (simp only: calculate_tf_loop.simps Let_def)
  with Cons.prems(2) obtain inner c where
    r: "calculate_tf_loop doc (AList.update x (AList.update doc (c + 1) inner) tf1) xs = Inr m"
    by (auto split: option.splits)
  have "distinct (map fst (AList.update x (AList.update doc (c + 1) inner) tf1))"
    using d1 by (rule distinct_update)
  then show ?case using r by (rule Cons.IH)
qed

text \<open>
  C7. \<^verbatim>\<open>calculate_tf\<close> returns (it raises no \<^verbatim>\<open>KeyError\<close>) a dictionary whose terms are
  exactly the distinct tokens, each mapped to a dictionary with the single entry
  \<open>doc_id \<mapsto> count\<close>, where the count is the number of occurrences of the token in the list,
  a positive integer. This holds for the empty token list as well (the result is empty).
\<close>

theorem calculate_tf_counts:
  "\<exists>tf_map. calculate_tf tokens doc = Inr tf_map
     \<and> distinct (map fst tf_map)
     \<and> fst ` set tf_map = set tokens
     \<and> (\<forall>t \<in> set tokens.
          0 < count_list tokens t
          \<and> map_of tf_map t = Some [(doc, int (count_list tokens t))])"
proof (cases "tokens = []")
  case True
  then show ?thesis by (simp add: calculate_tf_def)
next
  case False
  have "\<forall>t. map_of ([] :: index) t
          = (if t \<in> set ([] :: string list)
             then Some [(doc, int (count_list [] t))] else None)"
    by simp
  from calculate_tf_loop_counts [OF this, of tokens]
  obtain m where m: "calculate_tf_loop doc [] tokens = Inr m"
    and cnt: "\<forall>t. map_of m t
                = (if t \<in> set tokens then Some [(doc, int (count_list tokens t))] else None)"
    by auto
  have d: "distinct (map fst m)"
    using calculate_tf_loop_distinct [OF _ m] by simp
  have "dom (map_of m) = set tokens"
    using cnt by (auto simp: dom_def)
  then have k: "fst ` set m = set tokens"
    by (simp add: dom_map_of_conv_image_fst)
  have pos: "\<forall>t \<in> set tokens. 0 < count_list tokens t"
    using count_list_0_iff [of tokens] by (intro ballI) (metis gr0I)
  show ?thesis
    using False m d k cnt pos by (simp add: calculate_tf_def)
qed

theorem calculate_tf_counts_witness:
  "\<exists>tf_map. calculate_tf [''cat'', ''cat'', ''dog''] ''d2.txt'' = Inr tf_map
     \<and> fst ` set tf_map = {''cat'', ''dog''}
     \<and> map_of tf_map ''cat'' = Some [(''d2.txt'', 2)]
     \<and> map_of tf_map ''dog'' = Some [(''d2.txt'', 1)]"
proof -
  from calculate_tf_counts [of "[''cat'', ''cat'', ''dog'']" "''d2.txt''"]
  obtain tf_map where t: "calculate_tf [''cat'', ''cat'', ''dog''] ''d2.txt'' = Inr tf_map"
    "fst ` set tf_map = set [''cat'', ''cat'', ''dog'']"
    "\<forall>t \<in> set [''cat'', ''cat'', ''dog''].
       0 < count_list [''cat'', ''cat'', ''dog''] t
       \<and> map_of tf_map t = Some [(''d2.txt'', int (count_list [''cat'', ''cat'', ''dog''] t))]"
    by blast
  have "map_of tf_map ''cat'' = Some [(''d2.txt'', 2)]"
    using t(3) by simp
  moreover have "map_of tf_map ''dog'' = Some [(''d2.txt'', 1)]"
    using t(3) by simp
  moreover have "fst ` set tf_map = {''cat'', ''dog''}"
    using t(2) by simp
  ultimately show ?thesis using t(1) by blast
qed

lemma listener_receives_nothing: "listener_receives validate st [] = st"
  by (simp add: listener_receives_def)

text \<open>
  C8. A task whose content normalizes to no tokens: the worker returns without publishing
  (either at the check for tokens, or before it when Redis cannot be reached), so no
  record reaches the coordinator's listener, the coordinator's state is what it was, and a
  document that was pending stays pending.
\<close>

theorem process_document_task_empty_tokens:
  assumes "normalize_text lib content
             (case language of None \<Rightarrow> PROCESSING_LANGUAGE | Some l \<Rightarrow> l) = []"
  shows "(\<forall>data n. fst (process_document_task lib PROCESSING_LANGUAGE worker_name cached b
                         (Task doc content language)) \<noteq> Published data n)
       \<and> fst (process_document_task lib PROCESSING_LANGUAGE worker_name cached b
                (Task doc content language))
           = (if cached \<or> ping_ok b then NoTokens else NoRedis)
       \<and> delivered_results
            (fst (process_document_task lib PROCESSING_LANGUAGE worker_name cached b
                    (Task doc content language))) = []
       \<and> listener_receives validate st
            (delivered_results
               (fst (process_document_task lib PROCESSING_LANGUAGE worker_name cached b
                       (Task doc content language)))) = st
       \<and> (doc \<in> dispatched_docs_pending_results st \<longrightarrow>
            doc \<in> dispatched_docs_pending_results
                    (listener_receives validate st
                       (delivered_results
                          (fst (process_document_task lib PROCESSING_LANGUAGE worker_name
                                  cached b (Task doc content language))))))"
proof -
  have out: "fst (process_document_task lib PROCESSING_LANGUAGE worker_name cached b
                (Task doc content language))
           = (if cached \<or> ping_ok b then NoTokens else NoRedis)"
    using assms by (simp add: process_document_task_def get_redis_client_def)
  have del: "delivered_results (if cached \<or> ping_ok b then NoTokens else NoRedis) = []"
    by (simp add: delivered_results_def)
  show ?thesis
    unfolding out del listener_receives_nothing by auto
qed

theorem process_document_task_empty_tokens_witness:
  "normalize_text
     \<lparr>str_lower = (\<lambda>s. s), tok_pattern_findall = (\<lambda>s. [s]), str_isalpha = (\<lambda>s. True),
      stopwords_english = {''the''}, stopwords_spanish = {''el''},
      stem_english = (\<lambda>s. s), stem_spanish = (\<lambda>s. s)\<rparr>
     ''the'' (case None of None \<Rightarrow> ''english'' | Some l \<Rightarrow> l) = []
   \<and> fst (process_document_task
        \<lparr>str_lower = (\<lambda>s. s), tok_pattern_findall = (\<lambda>s. [s]), str_isalpha = (\<lambda>s. True),
         stopwords_english = {''the''}, stopwords_spanish = {''el''},
         stem_english = (\<lambda>s. s), stem_spanish = (\<lambda>s. s)\<rparr>
        ''english'' ''worker-1'' False \<lparr>ping_ok = True, publish_reply = Inr 1\<rparr>
        (Task ''d1.txt'' ''the'' None)) = NoTokens
   \<and> ''d1.txt'' \<in> dispatched_docs_pending_results
        (listener_receives (\<lambda>kwargs. None)
           \<lparr>global_inverted_index = [], dispatched_docs_pending_results = {''d1.txt''}\<rparr>
           (delivered_results
              (fst (process_document_task
                 \<lparr>str_lower = (\<lambda>s. s), tok_pattern_findall = (\<lambda>s. [s]),
                  str_isalpha = (\<lambda>s. True),
                  stopwords_english = {''the''}, stopwords_spanish = {''el''},
                  stem_english = (\<lambda>s. s), stem_spanish = (\<lambda>s. s)\<rparr>
                 ''english'' ''worker-1'' False \<lparr>ping_ok = True, publish_reply = Inr 1\<rparr>
                 (Task ''d1.txt'' ''the'' None)))))"
proof -
  let ?lib = "\<lparr>str_lower = (\<lambda>s. s), tok_pattern_findall = (\<lambda>s. [s]),
               str_isalpha = (\<lambda>s. True),
               stopwords_english = {''the''}, stopwords_spanish = {''el''},
               stem_english = (\<lambda>s. s), stem_spanish = (\<lambda>s. s)\<rparr>"
  let ?st = "\<lparr>global_inverted_index = [], dispatched_docs_pending_results = {''d1.txt''}\<rparr>"
  let ?b = "\<lparr>ping_ok = True, publish_reply = Inr 1\<rparr>"
  have h: "normalize_text ?lib ''the'' (case None of None \<Rightarrow> ''english'' | Some l \<Rightarrow> l) = []"
    by (simp add: normalize_text_def)
  note t = process_document_task_empty_tokens [OF h, of "''worker-1''" False ?b "''d1.txt''"
      "\<lambda>kwargs. None" ?st]
  have a: "fst (process_document_task ?lib ''english'' ''worker-1'' False ?b
                  (Task ''d1.txt'' ''the'' None)) = NoTokens"
    using t by simp
  have b: "''d1.txt'' \<in> dispatched_docs_pending_results
        (listener_receives (\<lambda>kwargs. None) ?st
           (delivered_results
              (fst (process_document_task ?lib ''english'' ''worker-1'' False ?b
                      (Task ''d1.txt'' ''the'' None)))))"
  proof -
    have p: "''d1.txt'' \<in> dispatched_docs_pending_results ?st" by simp
    show ?thesis using t p by blast
  qed
  show ?thesis using h a b by blast
qed

section \<open>Properties of the coordinator\<close>

lemma mset_py_sorted_reverse: "mset (py_sorted_reverse key xs) = mset xs"
  by (simp add: py_sorted_reverse_def)

lemma sorted_py_sorted_reverse: "sorted_wrt (\<ge>) (map key (py_sorted_reverse key xs))"
proof -
  have "sorted (map key (sort_key key (rev xs)))" by simp
  then have "sorted_wrt (\<ge>) (rev (map key (sort_key key (rev xs))))"
    by (simp add: sorted_wrt_rev)
  then show ?thesis by (simp add: py_sorted_reverse_def rev_map)
qed


text \<open>
  C5, as the code has it. A search term that is empty or only white space is rejected
  with status 400 before it is normalized, so no list is returned for it (although its
  normalization yields no stems). Every other search returns a list of documents: when
  the normalizer yields at least one stem, the list holds exactly the
  \<open>(doc_id, frequency)\<close> entries of the global index at the first stem, and the frequencies
  never increase along the list; when the stem is not in the index, or the normalizer
  yields no stem, the list is empty.
\<close>

theorem search_endpoint_docs:
  "(py_strip query_term = [] \<longrightarrow>
      search_endpoint lib language st query_term = Inl (HTTPException 400))
   \<and> (py_strip query_term \<noteq> [] \<longrightarrow>
      (\<exists>docs. search_endpoint lib language st query_term = Inr docs
           \<and> sorted_wrt (\<ge>) (map snd docs)
           \<and> (case normalize_text lib query_term language of
                 [] \<Rightarrow> docs = []
               | search_stem # other_stems \<Rightarrow>
                   (case map_of (global_inverted_index st) search_stem of
                      None \<Rightarrow> docs = []
                    | Some doc_freq_map \<Rightarrow> mset docs = mset doc_freq_map))))"
proof (intro conjI impI)
  assume "py_strip query_term = []"
  then show "search_endpoint lib language st query_term = Inl (HTTPException 400)"
    by (simp add: search_endpoint_def)
next
  assume ne: "py_strip query_term \<noteq> []"
  show "\<exists>docs. search_endpoint lib language st query_term = Inr docs
           \<and> sorted_wrt (\<ge>) (map snd docs)
           \<and> (case normalize_text lib query_term language of
                 [] \<Rightarrow> docs = []
               | search_stem # other_stems \<Rightarrow>
                   (case map_of (global_inverted_index st) search_stem of
                      None \<Rightarrow> docs = []
                    | Some doc_freq_map \<Rightarrow> mset docs = mset doc_freq_map))"
  proof (cases "normalize_text lib query_term language")
    case Nil
    then show ?thesis using ne by (simp add: search_endpoint_def)
  next
    case (Cons search_stem other_stems)
    show ?thesis
    proof (cases "map_of (global_inverted_index st) search_stem")
      case None
      then show ?thesis using ne Cons by (simp add: search_endpoint_def)
    next
      case (Some doc_freq_map)
      then show ?thesis
        using ne Cons
        by (simp add: search_endpoint_def mset_py_sorted_reverse sorted_py_sorted_reverse)
    qed
  qed
qed

theorem search_endpoint_docs_witness:
  "py_strip ''dog'' \<noteq> []
   \<and> search_endpoint
        \<lparr>str_lower = (\<lambda>s. s),
         tok_pattern_findall = (\<lambda>s. if py_strip s = [] then [] else [py_strip s]),
         str_isalpha = (\<lambda>s. True),
         stopwords_english = {''the''}, stopwords_spanish = {''el''},
         stem_english = (\<lambda>s. s), stem_spanish = (\<lambda>s. s)\<rparr>
        ''english''
        \<lparr>global_inverted_index =
           [(''cat'', [(''d2.txt'', 2)]),
            (''dog'', [(''d2.txt'', 1), (''d3.txt'', 4), (''d4.txt'', 1)])],
         dispatched_docs_pending_results = {}\<rparr>
        ''dog''
      = Inr [(''d3.txt'', 4), (''d2.txt'', 1), (''d4.txt'', 1)]
   \<and> (\<exists>docs. search_endpoint
        \<lparr>str_lower = (\<lambda>s. s),
         tok_pattern_findall = (\<lambda>s. if py_strip s = [] then [] else [py_strip s]),
         str_isalpha = (\<lambda>s. True),
         stopwords_english = {''the''}, stopwords_spanish = {''el''},
         stem_english = (\<lambda>s. s), stem_spanish = (\<lambda>s. s)\<rparr>
        ''english''
        \<lparr>global_inverted_index =
           [(''cat'', [(''d2.txt'', 2)]),
            (''dog'', [(''d2.txt'', 1), (''d3.txt'', 4), (''d4.txt'', 1)])],
         dispatched_docs_pending_results = {}\<rparr>
        ''dog'' = Inr docs
      \<and> sorted_wrt (\<ge>) (map snd docs)
      \<and> mset docs = mset [(''d2.txt'', 1), (''d3.txt'', 4), (''d4.txt'', 1)])"
proof -
  let ?lib = "\<lparr>str_lower = (\<lambda>s. s),
               tok_pattern_findall = (\<lambda>s. if py_strip s = [] then [] else [py_strip s]),
               str_isalpha = (\<lambda>s. True),
               stopwords_english = {''the''}, stopwords_spanish = {''el''},
               stem_english = (\<lambda>s. s), stem_spanish = (\<lambda>s. s)\<rparr>"
  let ?st = "\<lparr>global_inverted_index =
               [(''cat'', [(''d2.txt'', 2)]),
                (''dog'', [(''d2.txt'', 1::int), (''d3.txt'', 4), (''d4.txt'', 1)])],
             dispatched_docs_pending_results = {}\<rparr>"
  have s: "py_strip ''dog'' = ''dog''"
    by (simp add: py_strip_def py_isspace_def)
  have h: "py_strip ''dog'' \<noteq> []"
    by (simp add: s)
  have n: "normalize_text ?lib ''dog'' ''english'' = [''dog'']"
    by (simp add: normalize_text_def s)
  have e: "search_endpoint ?lib ''english'' ?st ''dog''
             = Inr [(''d3.txt'', 4), (''d2.txt'', 1), (''d4.txt'', 1)]"
    using h by (simp add: search_endpoint_def n py_sorted_reverse_def)
  from search_endpoint_docs [of "''dog''" ?lib "''english''" ?st] h
  obtain docs where d: "search_endpoint ?lib ''english'' ?st ''dog'' = Inr docs"
    "sorted_wrt (\<ge>) (map snd docs)"
    "(case normalize_text ?lib ''dog'' ''english'' of
        [] \<Rightarrow> docs = []
      | search_stem # other_stems \<Rightarrow>
          (case map_of (global_inverted_index ?st) search_stem of
             None \<Rightarrow> docs = []
           | Some doc_freq_map \<Rightarrow> mset docs = mset doc_freq_map))"
    by blast
  have "mset docs = mset [(''d2.txt'', 1), (''d3.txt'', 4), (''d4.txt'', 1)]"
    using d(3) unfolding n by simp
  then show ?thesis using h e d(1,2) by blast
qed

text \<open>
  The search term of three spaces: its normalization yields no stems, and the search
  returns no list (not the empty list) but is rejected with status 400.
\<close>

theorem search_endpoint_blank_counterexample:
  "normalize_text
     \<lparr>str_lower = (\<lambda>s. s),
      tok_pattern_findall = (\<lambda>s. if py_strip s = [] then [] else [py_strip s]),
      str_isalpha = (\<lambda>s. True),
      stopwords_english = {''the''}, stopwords_spanish = {''el''},
      stem_english = (\<lambda>s. s), stem_spanish = (\<lambda>s. s)\<rparr>
     ''   '' ''english'' = []
   \<and> search_endpoint
        \<lparr>str_lower = (\<lambda>s. s),
         tok_pattern_findall = (\<lambda>s. if py_strip s = [] then [] else [py_strip s]),
         str_isalpha = (\<lambda>s. True),
         stopwords_english = {''the''}, stopwords_spanish = {''el''},
         stem_english = (\<lambda>s. s), stem_spanish = (\<lambda>s. s)\<rparr>
        ''english''
        \<lparr>global_inverted_index = [(''dog'', [(''d2.txt'', 1)])],
         dispatched_docs_pending_results = {}\<rparr>
        ''   ''
      = Inl (HTTPException 400)
   \<and> search_endpoint
        \<lparr>str_lower = (\<lambda>s. s),
         tok_pattern_findall = (\<lambda>s. if py_strip s = [] then [] else [py_strip s]),
         str_isalpha = (\<lambda>s. True),
         stopwords_english = {''the''}, stopwords_spanish = {''el''},
         stem_english = (\<lambda>s. s), stem_spanish = (\<lambda>s. s)\<rparr>
        ''english''
        \<lparr>global_inverted_index = [(''dog'', [(''d2.txt'', 1)])],
         dispatched_docs_pending_results = {}\<rparr>
        ''   ''
      \<noteq> Inr []"
proof -
  have s: "py_strip ''   '' = []"
    by (simp add: py_strip_def py_isspace_def)
  show ?thesis
    by (simp add: normalize_text_def search_endpoint_def s)
qed

text \<open>
  C10. The load-index operation: the global index becomes what
  \<^verbatim>\<open>load_global_index_from_file\<close> returned (the stored index, or the empty index when the file
  is missing or unreadable), and the pending set is emptied by the same assignment block,
  whatever it held.
\<close>

theorem load_index_endpoint_replaces_index_and_clears_pending:
  "load_index_endpoint file st = install_loaded_index (load_global_index_from_file file) st
   \<and> global_inverted_index (load_index_endpoint file st) = load_global_index_from_file file
   \<and> global_inverted_index (load_index_endpoint (Document (Some stored)) st) = stored
   \<and> dispatched_docs_pending_results (load_index_endpoint file st) = {}"
  by (simp add: load_index_endpoint_def install_loaded_index_def load_global_index_from_file_def)

lemma workers_status_never_503:
  "get_workers_status_endpoint held b \<noteq> Inl (HTTPException 503)"
  by (simp add: get_workers_status_endpoint_def split: sum.splits)

lemma workers_status_unreachable_gives_500:
  "\<not> reachable b \<Longrightarrow> get_workers_status_endpoint held b = Inl (HTTPException 500)"
  by (simp add: get_workers_status_endpoint_def workers_status_body_def
      get_publisher_redis_client_def)

text \<open>
  C9. The worker-status endpoint with the broker unreachable: \<^verbatim>\<open>ping\<close> raises
  \<^verbatim>\<open>ConnectionError\<close>, \<^verbatim>\<open>get_publisher_redis_client\<close> lets it through, and the endpoint's
  handler for \<^verbatim>\<open>RedisError\<close> answers with status 500. The status 503 that the endpoint
  raises when it has no client is never returned.
\<close>

theorem get_workers_status_endpoint_unreachable:
  "get_workers_status_endpoint False
     \<lparr>reachable = False, status_replies = Inr [], rpush_reply = Inr 0\<rparr>
   = Inl (HTTPException 500)"
  by (simp add: get_workers_status_endpoint_def workers_status_body_def
      get_publisher_redis_client_def)

section \<open>Properties of the dispatcher\<close>


















section \<open>Properties of dispatch\<close>

lemma push_task_to_queue_None_iff:
  "fst (push_task_to_queue rt held b) = None \<longleftrightarrow>
     \<not> reachable b
     \<or> (\<exists>e. status_replies b = Inl e)
     \<or> (\<exists>entries. status_replies b = Inr entries
           \<and> (\<forall>worker. get_least_loaded_worker rt entries = Inr (Some worker) \<longrightarrow> worker = []))
     \<or> (\<exists>e. rpush_reply b = Inl e)"
  by (auto simp: push_task_to_queue_def get_publisher_redis_client_def
      split: sum.splits option.splits)

lemma pending_add_pending:
  "dispatched_docs_pending_results (run_state (add_pending run doc))
     = insert doc (dispatched_docs_pending_results (run_state run))"
  by (simp add: add_pending_def)

lemma pending_record_push:
  "dispatched_docs_pending_results (run_state (record_push run doc pushed))
     = (case fst pushed of
          Some n \<Rightarrow> dispatched_docs_pending_results (run_state run)
        | None \<Rightarrow> dispatched_docs_pending_results (run_state run) - {doc})"
  by (cases pushed; cases "fst pushed") (auto simp: record_push_def)

lemma dispatch_local_file_steps:
  assumes "file_read f = Inr content_str" and "py_strip content_str \<noteq> []"
  shows "dispatch_local_file rt run f
           = record_push (add_pending run (file_name f)) (file_name f)
               (push_task_to_queue rt (client_held run) (file_broker f))"
  using assms by (simp add: dispatch_local_file_def Let_def add_pending_def)

text \<open>
  C6, as the code has it. For a readable, non-blank file the dispatch is: put the
  document into the pending set, push, record the outcome. The document is in the pending
  set when the push is made. When the push succeeds it stays there. When the push fails
  (\<^verbatim>\<open>push_task_to_queue\<close> returns \<^verbatim>\<open>None\<close>: the broker is unreachable, a command raised, no
  worker was selected or the selected id is empty) the document is taken out again:
  afterwards it is not pending, and every other document's membership is what it was. The
  set as a whole is unchanged only when the document was not pending before the call.
\<close>

theorem dispatch_local_file_pending:
  assumes "file_read f = Inr content_str" and "py_strip content_str \<noteq> []"
  shows "dispatch_local_file rt run f
           = record_push (add_pending run (file_name f)) (file_name f)
               (push_task_to_queue rt (client_held run) (file_broker f))
       \<and> file_name f
           \<in> dispatched_docs_pending_results (run_state (add_pending run (file_name f)))
       \<and> (\<forall>n. fst (push_task_to_queue rt (client_held run) (file_broker f)) = Some n \<longrightarrow>
            dispatched_docs_pending_results (run_state (dispatch_local_file rt run f))
              = insert (file_name f) (dispatched_docs_pending_results (run_state run)))
       \<and> (fst (push_task_to_queue rt (client_held run) (file_broker f)) = None \<longrightarrow>
            dispatched_docs_pending_results (run_state (dispatch_local_file rt run f))
              = dispatched_docs_pending_results (run_state run) - {file_name f}
            \<and> file_name f
                \<notin> dispatched_docs_pending_results (run_state (dispatch_local_file rt run f))
            \<and> (file_name f \<notin> dispatched_docs_pending_results (run_state run) \<longrightarrow>
                 dispatched_docs_pending_results (run_state (dispatch_local_file rt run f))
                   = dispatched_docs_pending_results (run_state run)))
       \<and> (fst (push_task_to_queue rt (client_held run) (file_broker f)) = None \<longleftrightarrow>
            \<not> reachable (file_broker f)
            \<or> (\<exists>e. status_replies (file_broker f) = Inl e)
            \<or> (\<exists>entries. status_replies (file_broker f) = Inr entries
                  \<and> (\<forall>worker. get_least_loaded_worker rt entries = Inr (Some worker)
                                 \<longrightarrow> worker = []))
            \<or> (\<exists>e. rpush_reply (file_broker f) = Inl e))"
proof -
  let ?push = "push_task_to_queue rt (client_held run) (file_broker f)"
  have steps: "dispatch_local_file rt run f
                 = record_push (add_pending run (file_name f)) (file_name f) ?push"
    by (rule dispatch_local_file_steps [OF assms])
  have pend: "dispatched_docs_pending_results (run_state (dispatch_local_file rt run f))
           = (case fst ?push of
                Some n \<Rightarrow> insert (file_name f) (dispatched_docs_pending_results (run_state run))
              | None \<Rightarrow> insert (file_name f) (dispatched_docs_pending_results (run_state run))
                          - {file_name f})"
    unfolding steps pending_record_push pending_add_pending ..
  have a: "file_name f
             \<in> dispatched_docs_pending_results (run_state (add_pending run (file_name f)))"
    by (simp add: pending_add_pending)
  have b: "\<forall>n. fst ?push = Some n \<longrightarrow>
            dispatched_docs_pending_results (run_state (dispatch_local_file rt run f))
              = insert (file_name f) (dispatched_docs_pending_results (run_state run))"
    using pend by simp
  have c: "fst ?push = None \<longrightarrow>
            dispatched_docs_pending_results (run_state (dispatch_local_file rt run f))
              = dispatched_docs_pending_results (run_state run) - {file_name f}
            \<and> file_name f
                \<notin> dispatched_docs_pending_results (run_state (dispatch_local_file rt run f))
            \<and> (file_name f \<notin> dispatched_docs_pending_results (run_state run) \<longrightarrow>
                 dispatched_docs_pending_results (run_state (dispatch_local_file rt run f))
                   = dispatched_docs_pending_results (run_state run))"
    using pend by auto
  show ?thesis
    using steps a b c push_task_to_queue_None_iff [of rt "client_held run" "file_broker f"]
    by blast
qed

text \<open>
  Two dispatches of \<open>b.txt\<close> while \<open>a.txt\<close> is pending. The only status key is
  \<^verbatim>\<open>worker_status:\<close>, whose worker id is empty: the push fails and \<open>b.txt\<close> is not pending
  afterwards. With a worker \<open>w1\<close> the push succeeds and \<open>b.txt\<close> is pending.
\<close>

theorem dispatch_local_file_pending_witness:
  "file_read \<lparr>file_name = ''b.txt'', file_read = Inr ''fox'',
               file_broker = \<lparr>reachable = True,
                  status_replies = Inr [\<lparr>key_worker_id = '''', key_ttl = 6,
                     hash_cpu = Number (Finite 10), hash_ram = Number (Finite 10),
                     queue_llen = Some 0\<rparr>],
                  rpush_reply = Inr 1\<rparr>\<rparr>
     = Inr ''fox''
   \<and> py_strip ''fox'' \<noteq> []
   \<and> fst (push_task_to_queue example_runtime False
             \<lparr>reachable = True,
              status_replies = Inr [\<lparr>key_worker_id = '''', key_ttl = 6,
                 hash_cpu = Number (Finite 10), hash_ram = Number (Finite 10),
                 queue_llen = Some 0\<rparr>],
              rpush_reply = Inr 1\<rparr>) = None
   \<and> dispatched_docs_pending_results (run_state (dispatch_local_file example_runtime
        \<lparr>run_state = \<lparr>global_inverted_index = [],
                       dispatched_docs_pending_results = {''a.txt''}\<rparr>,
         client_held = False, files_found_count = 1, successful_files = [],
         failed_files_details = []\<rparr>
        \<lparr>file_name = ''b.txt'', file_read = Inr ''fox'',
         file_broker = \<lparr>reachable = True,
            status_replies = Inr [\<lparr>key_worker_id = '''', key_ttl = 6,
               hash_cpu = Number (Finite 10), hash_ram = Number (Finite 10),
               queue_llen = Some 0\<rparr>],
            rpush_reply = Inr 1\<rparr>\<rparr>))
     = {''a.txt''}
   \<and> fst (push_task_to_queue example_runtime False
             \<lparr>reachable = True,
              status_replies = Inr [\<lparr>key_worker_id = ''w1'', key_ttl = 6,
                 hash_cpu = Number (Finite 10), hash_ram = Number (Finite 10),
                 queue_llen = Some 0\<rparr>],
              rpush_reply = Inr 1\<rparr>) = Some 1
   \<and> dispatched_docs_pending_results (run_state (dispatch_local_file example_runtime
        \<lparr>run_state = \<lparr>global_inverted_index = [],
                       dispatched_docs_pending_results = {''a.txt''}\<rparr>,
         client_held = False, files_found_count = 1, successful_files = [],
         failed_files_details = []\<rparr>
        \<lparr>file_name = ''b.txt'', file_read = Inr ''fox'',
         file_broker = \<lparr>reachable = True,
            status_replies = Inr [\<lparr>key_worker_id = ''w1'', key_ttl = 6,
               hash_cpu = Number (Finite 10), hash_ram = Number (Finite 10),
               queue_llen = Some 0\<rparr>],
            rpush_reply = Inr 1\<rparr>\<rparr>))
     = {''a.txt'', ''b.txt''}"
proof -
  let ?b0 = "\<lparr>reachable = True,
              status_replies = Inr [\<lparr>key_worker_id = '''', key_ttl = 6,
                 hash_cpu = Number (Finite 10), hash_ram = Number (Finite 10),
                 queue_llen = Some 0\<rparr>],
              rpush_reply = Inr 1\<rparr>"
  let ?b1 = "\<lparr>reachable = True,
              status_replies = Inr [\<lparr>key_worker_id = ''w1'', key_ttl = 6,
                 hash_cpu = Number (Finite 10), hash_ram = Number (Finite 10),
                 queue_llen = Some 0\<rparr>],
              rpush_reply = Inr 1\<rparr>"
  let ?f0 = "\<lparr>file_name = ''b.txt'', file_read = Inr ''fox'', file_broker = ?b0\<rparr>"
  let ?f1 = "\<lparr>file_name = ''b.txt'', file_read = Inr ''fox'', file_broker = ?b1\<rparr>"
  let ?run = "\<lparr>run_state = \<lparr>global_inverted_index = [],
                              dispatched_docs_pending_results = {''a.txt''}\<rparr>,
                client_held = False, files_found_count = 1, successful_files = [],
                failed_files_details = []\<rparr>"
  have h1: "file_read ?f0 = Inr ''fox''" by simp
  have h1': "file_read ?f1 = Inr ''fox''" by simp
  have h2: "py_strip ''fox'' \<noteq> []" by (simp add: py_strip_def py_isspace_def)
  have p0: "fst (push_task_to_queue example_runtime False ?b0) = None"
    by (simp add: push_task_to_queue_def get_publisher_redis_client_def
        get_least_loaded_worker_def candidate_workers_def example_runtime_def
        stable_sort_by_def)
  have p1: "fst (push_task_to_queue example_runtime False ?b1) = Some 1"
    by (simp add: push_task_to_queue_def get_publisher_redis_client_def
        get_least_loaded_worker_def candidate_workers_def example_runtime_def
        stable_sort_by_def)
  note t0 = dispatch_local_file_pending [OF h1 h2, of example_runtime ?run]
  note t1 = dispatch_local_file_pending [OF h1' h2, of example_runtime ?run]
  have p0': "fst (push_task_to_queue example_runtime (client_held ?run) (file_broker ?f0)) = None"
    using p0 by simp
  have p1': "fst (push_task_to_queue example_runtime (client_held ?run) (file_broker ?f1))
               = Some 1"
    using p1 by simp
  have "dispatched_docs_pending_results (run_state (dispatch_local_file example_runtime ?run ?f0))
          = dispatched_docs_pending_results (run_state ?run) - {file_name ?f0}"
    using t0 p0' by blast
  then have r0: "dispatched_docs_pending_results
                   (run_state (dispatch_local_file example_runtime ?run ?f0)) = {''a.txt''}"
    by simp
  have "dispatched_docs_pending_results (run_state (dispatch_local_file example_runtime ?run ?f1))
          = insert (file_name ?f1) (dispatched_docs_pending_results (run_state ?run))"
    using t1 p1' by blast
  then have r1: "dispatched_docs_pending_results
                   (run_state (dispatch_local_file example_runtime ?run ?f1))
                 = {''a.txt'', ''b.txt''}"
    by auto
  show ?thesis using h1 h2 p0 p1 r0 r1 by blast
qed

text \<open>
  A document that is already pending (an earlier dispatch of \<open>a.txt\<close> is in flight) is
  dispatched again and the push fails, no worker being registered: the pending set was
  \<open>{a.txt}\<close> and is empty afterwards, so it is not unchanged.
\<close>

theorem dispatch_local_file_pending_counterexample:
  "fst (push_task_to_queue example_runtime False
          \<lparr>reachable = True, status_replies = Inr [], rpush_reply = Inr 1\<rparr>) = None
   \<and> dispatched_docs_pending_results (run_state
        \<lparr>run_state = \<lparr>global_inverted_index = [],
                       dispatched_docs_pending_results = {''a.txt''}\<rparr>,
         client_held = False, files_found_count = 1, successful_files = [],
         failed_files_details = []\<rparr>) = {''a.txt''}
   \<and> dispatched_docs_pending_results (run_state (dispatch_local_file example_runtime
        \<lparr>run_state = \<lparr>global_inverted_index = [],
                       dispatched_docs_pending_results = {''a.txt''}\<rparr>,
         client_held = False, files_found_count = 1, successful_files = [],
         failed_files_details = []\<rparr>
        \<lparr>file_name = ''a.txt'', file_read = Inr ''fox'',
         file_broker = \<lparr>reachable = True, status_replies = Inr [], rpush_reply = Inr 1\<rparr>\<rparr>))
     = {}
   \<and> dispatched_docs_pending_results (run_state (dispatch_local_file example_runtime
        \<lparr>run_state = \<lparr>global_inverted_index = [],
                       dispatched_docs_pending_results = {''a.txt''}\<rparr>,
         client_held = False, files_found_count = 1, successful_files = [],
         failed_files_details = []\<rparr>
        \<lparr>file_name = ''a.txt'', file_read = Inr ''fox'',
         file_broker = \<lparr>reachable = True, status_replies = Inr [], rpush_reply = Inr 1\<rparr>\<rparr>))
     \<noteq> dispatched_docs_pending_results (run_state
        \<lparr>run_state = \<lparr>global_inverted_index = [],
                       dispatched_docs_pending_results = {''a.txt''}\<rparr>,
         client_held = False, files_found_count = 1, successful_files = [],
         failed_files_details = []\<rparr>)"
  by (simp add: dispatch_local_file_def add_pending_def record_push_def push_task_to_queue_def
      get_publisher_redis_client_def get_least_loaded_worker_def py_strip_def py_isspace_def
      Let_def)

end
